theory Spec2Isabelle
  imports Complex_Main
begin

section \<open>Shared data types (src/types/stl.ts)\<close>

text \<open>
  An \<^verbatim>\<open>ArrayBuffer\<close> is a sequence of bytes; a \<^typ>\<open>char\<close> of HOL is one byte, so
  the buffer is a \<^typ>\<open>char list\<close> and its \<^verbatim>\<open>byteLength\<close> is the length of the list.
  File names are strings of bytes as well. JavaScript numbers that only count or are
  compared with integers are \<^typ>\<open>nat\<close>; the slider values and coordinates are
  idealised as \<^typ>\<open>real\<close> (exact arithmetic, no rounding).
\<close>

record STLFile =
  name :: string
  size_bytes :: nat
  lastModified :: nat
  arrayBuffer :: "char list"

record ViewerControls =
  showWireframe :: bool
  showNormals :: bool
  showGrid :: bool
  showAxes :: bool
  backgroundColor :: string
  modelColor :: string
  lightingIntensity :: real
  rotationSpeed :: real

definition byteLength :: "char list \<Rightarrow> nat" where
  "byteLength buf = length buf"

section \<open>Statistics overlay (src/features/stats-overlay/StatsOverlay.tsx)\<close>

text \<open>
  The component renders nothing for a missing file and otherwise a set of cards. The
  file name and the cards that are computed from the buffer are the fields of
  \<open>stats_view\<close>; the formatted file size and date are left out.
\<close>

record stats_view =
  fileNameShown :: string
  triangleCount :: nat
  formatLabel :: string
  resolutionLabel :: string

definition StatsOverlay :: "STLFile option \<Rightarrow> stats_view option" where
  "StatsOverlay stlFile =
     (case stlFile of
        None \<Rightarrow> None
      | Some f \<Rightarrow>
          (let triangles = byteLength (arrayBuffer f) div 50 in
           Some \<lparr> fileNameShown =
                    (if length (name f) > 20 then take 20 (name f) @ ''...'' else name f),
                  triangleCount = triangles,
                  formatLabel =
                    (if byteLength (arrayBuffer f) > 84 then ''Binary STL'' else ''ASCII STL''),
                  resolutionLabel =
                    (if triangles > 100000 then ''High''
                     else if triangles > 10000 then ''Medium'' else ''Low'') \<rparr>))"

text \<open>
  The layout of a binary STL image, as the specification gives it: an 80-byte header, a
  4-byte triangle count and one 50-byte record per triangle.
\<close>

definition binaryStlLength :: "nat \<Rightarrow> nat" where
  "binaryStlLength n = 80 + 4 + 50 * n"

definition exactBinaryCount :: "nat \<Rightarrow> nat" where
  "exactBinaryCount len = (len - 84) div 50"

definition asciiSample :: "char list" where
  "asciiSample =
     ''solid t'' @ [CHR 0x0A] @
     ''facet normal 0 0 1'' @ [CHR 0x0A] @
     ''outer loop'' @ [CHR 0x0A] @
     ''vertex 0 0 0'' @ [CHR 0x0A] @
     ''vertex 1 0 0'' @ [CHR 0x0A] @
     ''vertex 0 1 0'' @ [CHR 0x0A] @
     ''endloop'' @ [CHR 0x0A] @
     ''endfacet'' @ [CHR 0x0A] @
     ''endsolid t'' @ [CHR 0x0A]"

section \<open>File intake (src/features/file-upload/FileUpload.tsx)\<close>

text \<open>
  \<^verbatim>\<open>toLowerCase\<close> on a name of bytes: the ASCII capitals are mapped to their small
  letters, every other byte is kept. \<^verbatim>\<open>endsWith\<close> compares the last characters.
\<close>

definition toLowerChar :: "char \<Rightarrow> char" where
  "toLowerChar c =
     (let n = (of_char c :: nat) in if 65 \<le> n \<and> n \<le> 90 then char_of (n + 32) else c)"

definition toLowerCase :: "string \<Rightarrow> string" where
  "toLowerCase s = map toLowerChar s"

definition endsWith :: "string \<Rightarrow> string \<Rightarrow> bool" where
  "endsWith s suf = (length suf \<le> length s \<and> drop (length s - length suf) s = suf)"

text \<open>
  What a handler does is the list of the calls it makes, in order. The component has no
  error callback: \<^verbatim>\<open>onFileUpload\<close> is its only channel to the parent.
\<close>

datatype upload_call = PreventDefault | SetIsDragOver bool | OnFileUpload STLFile

definition handleFileSelect :: "STLFile list \<Rightarrow> upload_call list" where
  "handleFileSelect files =
     (case files of
        [] \<Rightarrow> []
      | file # _ \<Rightarrow>
          (if endsWith (toLowerCase (name file)) ''.stl'' then [OnFileUpload file] else []))"

definition handleDrop :: "STLFile list \<Rightarrow> upload_call list" where
  "handleDrop files =
     [PreventDefault, SetIsDragOver False] @
     (case files of
        [] \<Rightarrow> []
      | file # _ \<Rightarrow>
          (if endsWith (toLowerCase (name file)) ''.stl'' then [OnFileUpload file] else []))"

text \<open>The specification's words: the name ends in \<open>.stl\<close>, letters in either case.\<close>

definition endsInStlAnyCase :: "string \<Rightarrow> bool" where
  "endsInStlAnyCase s =
     (\<exists>pre c1 c2 c3. s = pre @ [CHR ''.'', c1, c2, c3] \<and>
        (c1 = CHR ''s'' \<or> c1 = CHR ''S'') \<and>
        (c2 = CHR ''t'' \<or> c2 = CHR ''T'') \<and>
        (c3 = CHR ''l'' \<or> c3 = CHR ''L''))"

section \<open>Geometry normalisation (src/features/stl-viewer/STLViewer.tsx, loadSTL)\<close>

text \<open>
  A parsed geometry is the list of its vertex positions. The parser delivers finite
  coordinates; the only operation of the normalisation that can leave the finite numbers
  is the division \<^verbatim>\<open>2 / maxDim\<close>, so a JavaScript number that may be infinite or
  \<^verbatim>\<open>NaN\<close> is a value of \<open>jsnum\<close>.
\<close>

type_synonym vec3 = "real \<times> real \<times> real"

datatype jsnum = Num real | PosInfinity | NegInfinity | NaN

type_synonym jsvec3 = "jsnum \<times> jsnum \<times> jsnum"

definition vx :: "vec3 \<Rightarrow> real" where "vx v = fst v"
definition vy :: "vec3 \<Rightarrow> real" where "vy v = fst (snd v)"
definition vz :: "vec3 \<Rightarrow> real" where "vz v = snd (snd v)"

text \<open>
  \<^verbatim>\<open>computeBoundingBox\<close>: the componentwise minimum and maximum of the positions; a
  geometry without positions has the empty box (\<open>None\<close>), whose \<^verbatim>\<open>getCenter\<close> and
  \<^verbatim>\<open>getSize\<close> are the zero vector.
\<close>

definition computeBoundingBox :: "vec3 list \<Rightarrow> (vec3 \<times> vec3) option" where
  "computeBoundingBox vs =
     (if vs = [] then None
      else Some ((Min (set (map vx vs)), Min (set (map vy vs)), Min (set (map vz vs))),
                 (Max (set (map vx vs)), Max (set (map vy vs)), Max (set (map vz vs)))))"

definition getCenter :: "(vec3 \<times> vec3) option \<Rightarrow> vec3" where
  "getCenter box =
     (case box of
        None \<Rightarrow> (0, 0, 0)
      | Some (lo, hi) \<Rightarrow>
          ((vx lo + vx hi) * (1 / 2), (vy lo + vy hi) * (1 / 2), (vz lo + vz hi) * (1 / 2)))"

definition getSize :: "(vec3 \<times> vec3) option \<Rightarrow> vec3" where
  "getSize box =
     (case box of
        None \<Rightarrow> (0, 0, 0)
      | Some (lo, hi) \<Rightarrow> (vx hi - vx lo, vy hi - vy lo, vz hi - vz lo))"

definition translate :: "vec3 \<Rightarrow> vec3 list \<Rightarrow> vec3 list" where
  "translate d vs = map (\<lambda>v. (vx v + vx d, vy v + vy d, vz v + vz d)) vs"

definition maxDimOf :: "vec3 \<Rightarrow> real" where
  "maxDimOf sz = max (vx sz) (max (vy sz) (vz sz))"

text \<open>JavaScript's division and multiplication where the divisor may be zero.\<close>

definition jsDivide :: "real \<Rightarrow> real \<Rightarrow> jsnum" where
  "jsDivide a b =
     (if b = 0 then (if a = 0 then NaN else if 0 < a then PosInfinity else NegInfinity)
      else Num (a / b))"

definition jsTimes :: "jsnum \<Rightarrow> real \<Rightarrow> jsnum" where
  "jsTimes s a =
     (case s of
        Num r \<Rightarrow> Num (r * a)
      | PosInfinity \<Rightarrow> (if a = 0 then NaN else if 0 < a then PosInfinity else NegInfinity)
      | NegInfinity \<Rightarrow> (if a = 0 then NaN else if 0 < a then NegInfinity else PosInfinity)
      | NaN \<Rightarrow> NaN)"

definition scaleGeometry :: "jsnum \<Rightarrow> vec3 list \<Rightarrow> jsvec3 list" where
  "scaleGeometry s vs = map (\<lambda>v. (jsTimes s (vx v), jsTimes s (vy v), jsTimes s (vz v))) vs"

text \<open>
  The two steps of \<^verbatim>\<open>loadSTL\<close> between the parse and the clearing of the previous
  mesh: centre the geometry, then scale it so that the largest dimension is 2. The
  bounding box is computed again after the translation, as \<^verbatim>\<open>geometry.translate\<close> does.
\<close>

definition normalizeGeometry :: "vec3 list \<Rightarrow> jsvec3 list" where
  "normalizeGeometry geometry =
     (let center = getCenter (computeBoundingBox geometry);
          centred = translate (- vx center, - vy center, - vz center) geometry;
          sz = getSize (computeBoundingBox centred);
          maxDim = maxDimOf sz;
          scale = jsDivide 2 maxDim
      in scaleGeometry scale centred)"

text \<open>
  The property of the specification: the positions are finite numbers, the centre of
  their bounding box is the origin and its largest dimension is the target size 2.
\<close>

fun finiteNum :: "jsnum \<Rightarrow> real option" where
  "finiteNum (Num r) = Some r"
| "finiteNum PosInfinity = None"
| "finiteNum NegInfinity = None"
| "finiteNum NaN = None"

fun finiteVec :: "jsvec3 \<Rightarrow> vec3 option" where
  "finiteVec (a, b, c) =
     (case (finiteNum a, finiteNum b, finiteNum c) of
        (Some x, Some y, Some z) \<Rightarrow> Some (x, y, z)
      | _ \<Rightarrow> None)"

fun finitePositions :: "jsvec3 list \<Rightarrow> vec3 list option" where
  "finitePositions [] = Some []"
| "finitePositions (p # ps) =
     (case (finiteVec p, finitePositions ps) of
        (Some v, Some vs) \<Rightarrow> Some (v # vs)
      | _ \<Rightarrow> None)"

definition centredWithTargetSize :: "jsvec3 list \<Rightarrow> bool" where
  "centredWithTargetSize g =
     (case finitePositions g of
        None \<Rightarrow> False
      | Some vs \<Rightarrow>
          getCenter (computeBoundingBox vs) = (0, 0, 0) \<and>
          maxDimOf (getSize (computeBoundingBox vs)) = 2)"

section \<open>The viewer component (src/features/stl-viewer/STLViewer.tsx)\<close>

subsection \<open>Scene objects, refs and the browser\<close>

text \<open>
  Every object that three.js creates for the component has an identity, a number taken
  from the counter \<open>nextId\<close>. The objects that are placed in a scene live in a store
  (\<open>objects\<close>), the scene lists the identities of its children, and a ref holds an
  identity or \<^verbatim>\<open>null\<close> (\<open>None\<close>): so a write through a ref is seen through the scene,
  as in the source. The background colour is a plain colour value.
\<close>

datatype kind =
    AmbientLight | DirectionalLight | GridHelper | AxesHelper
  | Mesh | LineSegments | VertexNormalsHelper

record object3d =
  kind :: kind
  visible :: bool
  intensity :: real
  materialColor :: string
  rotationY :: real
  positions :: "jsvec3 list"

record scene =
  sceneId :: nat
  children :: "nat list"
  background :: "string option"

text \<open>
  The calls that create, register, release or draw something are recorded in a trace, in
  the order in which they are made.
\<close>

datatype event =
    RequestAnimationFrame nat
  | CancelAnimationFrame nat
  | AddResizeListener
  | RemoveResizeListener
  | ControlsUpdate
  | Render
  | CameraReset
  | SceneAdd nat
  | SceneRemove nat
  | ControlsDispose
  | RendererDispose
  | GeometryDispose nat
  | MaterialDispose nat
  | HelperDispose nat
  | ConsoleError
  | OnError string

text \<open>
  The state of one mounted component: its refs, its React state \<open>isInitializedState\<close>,
  and what the browser holds for it: the frame callbacks that are scheduled (the handle
  \<^verbatim>\<open>requestAnimationFrame\<close> returned, and the controls the scheduled \<^verbatim>\<open>animate\<close>
  closure has captured), the number of registered resize listeners, and the trace.
\<close>

record viewer =
  canvasRef :: bool
  sceneRef :: "scene option"
  rendererRef :: "nat option"
  cameraRef :: "nat option"
  controlsRef :: "nat option"
  meshRef :: "nat option"
  wireframeRef :: "nat option"
  normalsHelperRef :: "nat option"
  gridHelperRef :: "nat option"
  axesHelperRef :: "nat option"
  animationFrameRef :: nat
  isInitializedState :: bool
  objects :: "nat \<Rightarrow> object3d"
  nextId :: nat
  pendingFrames :: "(nat \<times> ViewerControls) list"
  nextHandle :: nat
  resizeListeners :: nat
  trace :: "event list"

text \<open>
  A callback sees the props and the state of the render that created it. These values
  are the \<open>render_scope\<close> a callback is run with; \<open>renderScope\<close> is the scope of a
  render of the component in a given state.
\<close>

record render_scope =
  stlFile :: "STLFile option"
  controls :: ViewerControls
  isInitialized :: bool

definition renderScope :: "STLFile option \<Rightarrow> ViewerControls \<Rightarrow> viewer \<Rightarrow> render_scope" where
  "renderScope file c st = \<lparr> stlFile = file, controls = c, isInitialized = isInitializedState st \<rparr>"

definition blankObject :: object3d where
  "blankObject = \<lparr> kind = Mesh, visible = False, intensity = 0, materialColor = [],
                   rotationY = 0, positions = [] \<rparr>"

definition mounted :: viewer where
  "mounted = \<lparr> canvasRef = True, sceneRef = None, rendererRef = None, cameraRef = None,
               controlsRef = None, meshRef = None, wireframeRef = None,
               normalsHelperRef = None, gridHelperRef = None, axesHelperRef = None,
               animationFrameRef = 0, isInitializedState = False,
               objects = (\<lambda>_. blankObject), nextId = 0, pendingFrames = [],
               nextHandle = 1, resizeListeners = 0, trace = [] \<rparr>"

definition emit :: "event list \<Rightarrow> viewer \<Rightarrow> viewer" where
  "emit es st = st\<lparr> trace := trace st @ es \<rparr>"

definition sceneAdd :: "nat \<Rightarrow> viewer \<Rightarrow> viewer" where
  "sceneAdd i st =
     emit [SceneAdd i]
       (st\<lparr> sceneRef := map_option (\<lambda>s. s\<lparr> children := children s @ [i] \<rparr>) (sceneRef st) \<rparr>)"

definition sceneRemove :: "nat \<Rightarrow> viewer \<Rightarrow> viewer" where
  "sceneRemove i st =
     emit [SceneRemove i]
       (st\<lparr> sceneRef := map_option (\<lambda>s. s\<lparr> children := remove1 i (children s) \<rparr>) (sceneRef st) \<rparr>)"

definition modify :: "nat \<Rightarrow> (object3d \<Rightarrow> object3d) \<Rightarrow> viewer \<Rightarrow> viewer" where
  "modify i f st = st\<lparr> objects := (objects st)(i := f (objects st i)) \<rparr>"

subsection \<open>The animation loop\<close>

text \<open>
  \<^verbatim>\<open>animate\<close> is a closure created inside \<^verbatim>\<open>initThreeJS\<close>: its \<open>controls\<close> are
  those of the render that created that \<^verbatim>\<open>initThreeJS\<close>. It schedules itself again
  first, then rotates, updates the orbit controller and renders.
\<close>

definition animate :: "ViewerControls \<Rightarrow> viewer \<Rightarrow> viewer" where
  "animate c st =
     (let h = nextHandle st;
          st1 = emit [RequestAnimationFrame h]
                  (st\<lparr> pendingFrames := pendingFrames st @ [(h, c)],
                       nextHandle := h + 1,
                       animationFrameRef := h \<rparr>);
          st2 = (case meshRef st1 of
                   None \<Rightarrow> st1
                 | Some m \<Rightarrow>
                     (if rotationSpeed c > 0
                      then modify m (\<lambda>ob. ob\<lparr> rotationY := rotationY ob + rotationSpeed c * (1 / 100) \<rparr>) st1
                      else st1));
          st3 = (if controlsRef st2 \<noteq> None then emit [ControlsUpdate] st2 else st2)
      in if rendererRef st3 \<noteq> None \<and> sceneRef st3 \<noteq> None \<and> cameraRef st3 \<noteq> None
         then emit [Render] st3 else st3)"

text \<open>
  One display refresh of the browser: the callbacks scheduled when the refresh starts
  are run in order; what they schedule waits for the next refresh.
\<close>

definition animationFrame :: "viewer \<Rightarrow> viewer" where
  "animationFrame st =
     fold (\<lambda>p s. animate (snd p) s) (pendingFrames st) (st\<lparr> pendingFrames := [] \<rparr>)"

definition cancelAnimationFrame :: "nat \<Rightarrow> viewer \<Rightarrow> viewer" where
  "cancelAnimationFrame h st =
     emit [CancelAnimationFrame h]
       (st\<lparr> pendingFrames := filter (\<lambda>p. fst p \<noteq> h) (pendingFrames st) \<rparr>)"

subsection \<open>Initialisation and teardown\<close>

definition light :: "kind \<Rightarrow> real \<Rightarrow> object3d" where
  "light k i = \<lparr> kind = k, visible = True, intensity = i, materialColor = ''#ffffff'',
                 rotationY = 0, positions = [] \<rparr>"

definition helper :: "kind \<Rightarrow> object3d" where
  "helper k = \<lparr> kind = k, visible = True, intensity = 0, materialColor = [],
                rotationY = 0, positions = [] \<rparr>"

definition initThreeJS :: "render_scope \<Rightarrow> viewer \<Rightarrow> viewer" where
  "initThreeJS sc st =
     (if \<not> canvasRef st \<or> isInitialized sc then st
      else
        (let s = nextId st; camera = s + 1; renderer = s + 2; orbitControls = s + 3;
             ambientLight = s + 4; directionalLight = s + 5; gridHelper = s + 6;
             axesHelper = s + 7;
             st1 = st\<lparr> sceneRef := Some \<lparr> sceneId = s, children = [], background = None \<rparr>,
                       cameraRef := Some camera,
                       rendererRef := Some renderer,
                       controlsRef := Some orbitControls,
                       nextId := s + 8 \<rparr>;
             st2 = sceneAdd ambientLight (modify ambientLight (\<lambda>_. light AmbientLight (6 / 10)) st1);
             st3 = sceneAdd directionalLight
                     (modify directionalLight (\<lambda>_. light DirectionalLight (8 / 10)) st2);
             st4 = (sceneAdd gridHelper (modify gridHelper (\<lambda>_. helper GridHelper) st3))
                     \<lparr> gridHelperRef := Some gridHelper \<rparr>;
             st5 = (sceneAdd axesHelper (modify axesHelper (\<lambda>_. helper AxesHelper) st4))
                     \<lparr> axesHelperRef := Some axesHelper \<rparr>;
             st6 = st5\<lparr> sceneRef :=
                         map_option (\<lambda>sn. sn\<lparr> background := Some (backgroundColor (controls sc)) \<rparr>)
                           (sceneRef st5) \<rparr>;
             st7 = animate (controls sc) st6
         in st7\<lparr> isInitializedState := True \<rparr>))"

text \<open>
  The body of the init effect, and the cleanup it returns. Removing a listener that is
  not registered does nothing, as the subtraction on \<^typ>\<open>nat\<close> does at 0. The
  material of the mesh is the single \<^verbatim>\<open>MeshPhongMaterial\<close> that \<^verbatim>\<open>loadSTL\<close> gave it.
\<close>

definition initEffect :: "render_scope \<Rightarrow> viewer \<Rightarrow> viewer" where
  "initEffect sc st =
     (let st1 = initThreeJS sc st
      in emit [AddResizeListener] (st1\<lparr> resizeListeners := resizeListeners st1 + 1 \<rparr>))"

definition cleanup :: "viewer \<Rightarrow> viewer" where
  "cleanup st =
     (let st1 = emit [RemoveResizeListener] (st\<lparr> resizeListeners := resizeListeners st - 1 \<rparr>);
          st2 = cancelAnimationFrame (animationFrameRef st1) st1;
          st3 = (if controlsRef st2 \<noteq> None then emit [ControlsDispose] st2 else st2);
          st4 = (if rendererRef st3 \<noteq> None then emit [RendererDispose] st3 else st3);
          st5 = (case meshRef st4 of
                   None \<Rightarrow> st4
                 | Some m \<Rightarrow> emit [GeometryDispose m, MaterialDispose m] st4);
          st6 = (case wireframeRef st5 of
                   None \<Rightarrow> st5
                 | Some w \<Rightarrow> emit [GeometryDispose w, MaterialDispose w] st5)
      in (case normalsHelperRef st6 of
            None \<Rightarrow> st6
          | Some n \<Rightarrow> emit [HelperDispose n] st6))"

text \<open>
  The init effect depends on \<^verbatim>\<open>initThreeJS\<close>, which \<^verbatim>\<open>useCallback\<close> creates anew
  when \<^verbatim>\<open>isInitialized\<close> or the background colour changes: React then runs the
  cleanup of the effect and its body again.
\<close>

definition rerunInitEffect :: "render_scope \<Rightarrow> viewer \<Rightarrow> viewer" where
  "rerunInitEffect sc st = initEffect sc (cleanup st)"

subsection \<open>Loading a mesh\<close>

text \<open>
  \<^verbatim>\<open>STLLoader.parse\<close> and the constructors belong to three.js. The parser is a
  parameter: it returns the positions, or \<open>None\<close> when it throws. A constructor call
  of the build may throw as well; \<open>throwsAt\<close> names the first call that does. Whatever
  throws inside the \<^verbatim>\<open>try\<close> block, the writes made before it stay and the
  \<^verbatim>\<open>catch\<close> block runs.
\<close>

datatype build_step = CreateMesh | CreateWireframe | CreateNormalsHelper | ResetCamera

definition parseFailedMessage :: string where
  "parseFailedMessage = ''Failed to parse STL file. Please ensure it is a valid STL file.''"

definition catchError :: "viewer \<Rightarrow> viewer" where
  "catchError st = emit [ConsoleError, OnError parseFailedMessage] st"

text \<open>
  Clearing the previous mesh: each object a ref holds is removed from the scene and its
  resources are released. The refs themselves are not reset.
\<close>

definition clearPrevious :: "viewer \<Rightarrow> viewer" where
  "clearPrevious st =
     (let st1 = (case meshRef st of
                   None \<Rightarrow> st
                 | Some m \<Rightarrow> emit [GeometryDispose m, MaterialDispose m] (sceneRemove m st));
          st2 = (case wireframeRef st1 of
                   None \<Rightarrow> st1
                 | Some w \<Rightarrow> emit [GeometryDispose w, MaterialDispose w] (sceneRemove w st1))
      in (case normalsHelperRef st2 of
            None \<Rightarrow> st2
          | Some n \<Rightarrow> emit [HelperDispose n] (sceneRemove n st2)))"

definition meshObject :: "render_scope \<Rightarrow> jsvec3 list \<Rightarrow> object3d" where
  "meshObject sc geometry =
     \<lparr> kind = Mesh, visible = True, intensity = 0, materialColor = modelColor (controls sc),
       rotationY = 0, positions = geometry \<rparr>"

definition wireframeObject :: "render_scope \<Rightarrow> jsvec3 list \<Rightarrow> object3d" where
  "wireframeObject sc geometry =
     \<lparr> kind = LineSegments, visible = showWireframe (controls sc), intensity = 0,
       materialColor = ''#ffffff'', rotationY = 0, positions = geometry \<rparr>"

definition normalsObject :: "render_scope \<Rightarrow> jsvec3 list \<Rightarrow> object3d" where
  "normalsObject sc geometry =
     \<lparr> kind = VertexNormalsHelper, visible = showNormals (controls sc), intensity = 0,
       materialColor = ''#ff0000'', rotationY = 0, positions = geometry \<rparr>"

definition createMesh :: "render_scope \<Rightarrow> jsvec3 list \<Rightarrow> viewer \<Rightarrow> viewer" where
  "createMesh sc geometry st =
     (let mesh = nextId st;
          st1 = modify mesh (\<lambda>_. meshObject sc geometry) (st\<lparr> nextId := mesh + 1 \<rparr>)
      in (sceneAdd mesh st1)\<lparr> meshRef := Some mesh \<rparr>)"

definition createWireframe :: "render_scope \<Rightarrow> jsvec3 list \<Rightarrow> viewer \<Rightarrow> viewer" where
  "createWireframe sc geometry st =
     (let wireframe = nextId st;
          st1 = modify wireframe (\<lambda>_. wireframeObject sc geometry)
                  (st\<lparr> nextId := wireframe + 1 \<rparr>)
      in (sceneAdd wireframe st1)\<lparr> wireframeRef := Some wireframe \<rparr>)"

definition createNormalsHelper :: "render_scope \<Rightarrow> jsvec3 list \<Rightarrow> viewer \<Rightarrow> viewer" where
  "createNormalsHelper sc geometry st =
     (let normalsHelper = nextId st;
          st1 = modify normalsHelper (\<lambda>_. normalsObject sc geometry)
                  (st\<lparr> nextId := normalsHelper + 1 \<rparr>)
      in (sceneAdd normalsHelper st1)\<lparr> normalsHelperRef := Some normalsHelper \<rparr>)"

definition resetCamera :: "viewer \<Rightarrow> viewer" where
  "resetCamera st =
     (if cameraRef st \<noteq> None \<and> controlsRef st \<noteq> None
      then emit [CameraReset, ControlsUpdate] st else st)"

definition loadSTL ::
  "(char list \<Rightarrow> vec3 list option) \<Rightarrow> build_step option \<Rightarrow> render_scope \<Rightarrow> STLFile \<Rightarrow>
   viewer \<Rightarrow> viewer" where
  "loadSTL parse throwsAt sc file st =
     (case parse (arrayBuffer file) of
        None \<Rightarrow> catchError st
      | Some parsed \<Rightarrow>
          (let geometry = normalizeGeometry parsed;
               st1 = clearPrevious st
           in if throwsAt = Some CreateMesh then catchError st1
              else let st2 = createMesh sc geometry st1
              in if throwsAt = Some CreateWireframe then catchError st2
              else let st3 = createWireframe sc geometry st2
              in if throwsAt = Some CreateNormalsHelper then catchError st3
              else let st4 = createNormalsHelper sc geometry st3
              in if throwsAt = Some ResetCamera then catchError st4
              else resetCamera st4))"

text \<open>
  The load effect: it returns at once without a scene, without a file, or when the
  render is not one of an initialised component. So \<^verbatim>\<open>loadSTL\<close> runs with a scene.
\<close>

definition loadEffect ::
  "(char list \<Rightarrow> vec3 list option) \<Rightarrow> build_step option \<Rightarrow> render_scope \<Rightarrow> viewer \<Rightarrow> viewer"
  where
  "loadEffect parse throwsAt sc st =
     (case stlFile sc of
        None \<Rightarrow> st
      | Some file \<Rightarrow>
          (if sceneRef st = None \<or> \<not> isInitialized sc then st
           else loadSTL parse throwsAt sc file st))"

subsection \<open>Applying the control state\<close>

definition isLight :: "kind \<Rightarrow> bool" where
  "isLight k = (k = AmbientLight \<or> k = DirectionalLight)"

text \<open>
  \<^verbatim>\<open>scene.traverse\<close> visits the scene and its descendants; the children of the scene
  have no children of their own. Every mesh the component creates has a
  \<^verbatim>\<open>MeshPhongMaterial\<close>, so the \<^verbatim>\<open>instanceof\<close> test holds whenever the ref is set.
\<close>

definition setLightIntensity :: "real \<Rightarrow> nat list \<Rightarrow> (nat \<Rightarrow> object3d) \<Rightarrow> nat \<Rightarrow> object3d" where
  "setLightIntensity v ids objs =
     fold (\<lambda>i os. if isLight (kind (os i)) then os(i := (os i)\<lparr> intensity := v \<rparr>) else os)
       ids objs"

definition throughRef :: "nat option \<Rightarrow> (object3d \<Rightarrow> object3d) \<Rightarrow> viewer \<Rightarrow> viewer" where
  "throughRef r f st = (case r of None \<Rightarrow> st | Some i \<Rightarrow> modify i f st)"

definition applyEffect :: "render_scope \<Rightarrow> viewer \<Rightarrow> viewer" where
  "applyEffect sc st =
     (case sceneRef st of
        None \<Rightarrow> st
      | Some _ \<Rightarrow>
          (if \<not> isInitialized sc then st
           else
             (let c = controls sc;
                  st1 = throughRef (meshRef st) (\<lambda>ob. ob\<lparr> materialColor := modelColor c \<rparr>) st;
                  st2 = throughRef (wireframeRef st1) (\<lambda>ob. ob\<lparr> visible := showWireframe c \<rparr>) st1;
                  st3 = throughRef (normalsHelperRef st2) (\<lambda>ob. ob\<lparr> visible := showNormals c \<rparr>) st2;
                  st4 = throughRef (gridHelperRef st3) (\<lambda>ob. ob\<lparr> visible := showGrid c \<rparr>) st3;
                  st5 = throughRef (axesHelperRef st4) (\<lambda>ob. ob\<lparr> visible := showAxes c \<rparr>) st4;
                  st6 = st5\<lparr> sceneRef :=
                              map_option (\<lambda>sn. sn\<lparr> background := Some (backgroundColor c) \<rparr>)
                                (sceneRef st5) \<rparr>
              in (case sceneRef st6 of
                    None \<Rightarrow> st6
                  | Some sn \<Rightarrow>
                      st6\<lparr> objects :=
                             setLightIntensity (lightingIntensity c) (children sn) (objects st6) \<rparr>))))"

subsection \<open>Observations used in the properties\<close>

definition sceneChildren :: "viewer \<Rightarrow> nat list" where
  "sceneChildren st = (case sceneRef st of None \<Rightarrow> [] | Some s \<Rightarrow> children s)"

definition ofKind :: "kind \<Rightarrow> viewer \<Rightarrow> nat list" where
  "ofKind k st = filter (\<lambda>i. kind (objects st i) = k) (sceneChildren st)"



fun isRelease :: "event \<Rightarrow> bool" where
  "isRelease ControlsDispose = True"
| "isRelease RendererDispose = True"
| "isRelease (GeometryDispose _) = True"
| "isRelease (MaterialDispose _) = True"
| "isRelease (HelperDispose _) = True"
| "isRelease _ = False"

text \<open>
  The scene holds no mesh, wireframe or normals object but those the refs hold, its
  children are distinct, and every identity in it has been handed out.
\<close>

definition refsCoverScene :: "viewer \<Rightarrow> bool" where
  "refsCoverScene st =
     (distinct (sceneChildren st) \<and>
      list_all (\<lambda>i. i < nextId st) (sceneChildren st) \<and>
      list_all (\<lambda>i. meshRef st = Some i) (ofKind Mesh st) \<and>
      list_all (\<lambda>i. wireframeRef st = Some i) (ofKind LineSegments st) \<and>
      list_all (\<lambda>i. normalsHelperRef st = Some i) (ofKind VertexNormalsHelper st))"

text \<open>At most one frame callback is scheduled, and \<open>animationFrameRef\<close> holds its handle.\<close>

definition singleLoop :: "viewer \<Rightarrow> bool" where
  "singleLoop st =
     (length (pendingFrames st) \<le> 1 \<and>
      list_all (\<lambda>p. fst p = animationFrameRef st) (pendingFrames st))"

subsection \<open>A session\<close>

text \<open>
  The controls the application starts with, a one-triangle file, and the states of a
  session: the component is mounted and initialised, a first file is shown, and the
  rotation slider is moved to 2.
\<close>

definition defaultControls :: ViewerControls where
  "defaultControls =
     \<lparr> showWireframe = False, showNormals = False, showGrid = True, showAxes = True,
       backgroundColor = ''#0f172a'', modelColor = ''#3b82f6'', lightingIntensity = 1,
       rotationSpeed = 0 \<rparr>"

definition triangleFile :: STLFile where
  "triangleFile = \<lparr> name = ''triangle.stl'', size_bytes = 134, lastModified = 0,
                    arrayBuffer = replicate 134 (CHR 0x00) \<rparr>"

definition brokenFile :: STLFile where
  "brokenFile = \<lparr> name = ''broken.stl'', size_bytes = 3, lastModified = 0,
                  arrayBuffer = replicate 3 (CHR 0x00) \<rparr>"

definition asciiFile :: STLFile where
  "asciiFile = \<lparr> name = ''facet.stl'', size_bytes = 105, lastModified = 0,
                 arrayBuffer = asciiSample \<rparr>"

definition fillerFile :: STLFile where
  "fillerFile = \<lparr> name = ''filler.stl'', size_bytes = 105, lastModified = 0,
                  arrayBuffer = replicate 105 (CHR ''x'') \<rparr>"

text \<open>
  A stand-in for the parser, used to run the session: a buffer shorter than the 84 bytes
  of a binary header is rejected, any other buffer yields one fixed triangle.
\<close>

definition sampleParse :: "char list \<Rightarrow> vec3 list option" where
  "sampleParse buf = (if length buf < 84 then None else Some [(0, 0, 0), (10, 0, 0), (0, 5, 0)])"

definition ready :: viewer where
  "ready = initEffect (renderScope None defaultControls mounted) mounted"

definition loading :: render_scope where
  "loading = renderScope (Some triangleFile) defaultControls ready"

definition shown :: viewer where
  "shown = loadEffect sampleParse None loading ready"

definition spinning :: render_scope where
  "spinning = renderScope (Some triangleFile) (defaultControls\<lparr> rotationSpeed := 2 \<rparr>) shown"

text \<open>
  \<open>recommitted\<close> is the state after the second run of the init effect, the one that
  follows the initialisation.
\<close>

definition recommitted :: viewer where
  "recommitted = rerunInitEffect (renderScope None defaultControls ready) ready"

definition broken :: render_scope where
  "broken = renderScope (Some brokenFile) defaultControls shown"

definition pointTriangle :: "vec3 list" where
  "pointTriangle = [(1, 1, 1), (1, 1, 1), (1, 1, 1)]"
















text \<open>Two files of one drop: a text file first, an STL file second.\<close>

definition notesFile :: STLFile where
  "notesFile = \<lparr> name = ''notes.txt'', size_bytes = 3, lastModified = 0,
                   arrayBuffer = replicate 3 (CHR ''x'') \<rparr>"

section \<open>Auxiliary notions of the proofs\<close>

text \<open>
  Closed forms of the operations: what a step appends to the trace, what it leaves of the
  children of the scene, and what the control state does to one object.
\<close>

definition affine :: "real \<Rightarrow> vec3 \<Rightarrow> vec3 \<Rightarrow> vec3" where
  "affine s d v = (s * (vx v + vx d), s * (vy v + vy d), s * (vz v + vz d))"

definition updAt ::
  "nat option \<Rightarrow> (object3d \<Rightarrow> object3d) \<Rightarrow> (nat \<Rightarrow> object3d) \<Rightarrow> nat \<Rightarrow> object3d" where
  "updAt r f objs j = (if r = Some j then f (objs j) else objs j)"

definition applied ::
  "ViewerControls \<Rightarrow> viewer \<Rightarrow> nat list \<Rightarrow> (nat \<Rightarrow> object3d) \<Rightarrow> nat \<Rightarrow> object3d" where
  "applied c st ids objs =
     setLightIntensity (lightingIntensity c) ids
       (updAt (axesHelperRef st) (\<lambda>ob. ob\<lparr> visible := showAxes c \<rparr>)
         (updAt (gridHelperRef st) (\<lambda>ob. ob\<lparr> visible := showGrid c \<rparr>)
           (updAt (normalsHelperRef st) (\<lambda>ob. ob\<lparr> visible := showNormals c \<rparr>)
             (updAt (wireframeRef st) (\<lambda>ob. ob\<lparr> visible := showWireframe c \<rparr>)
               (updAt (meshRef st) (\<lambda>ob. ob\<lparr> materialColor := modelColor c \<rparr>) objs)))))"

definition objApplied ::
  "ViewerControls \<Rightarrow> bool \<Rightarrow> bool \<Rightarrow> bool \<Rightarrow> bool \<Rightarrow> bool \<Rightarrow> bool \<Rightarrow> object3d \<Rightarrow> object3d" where
  "objApplied c bm bw bn bg ba bl ob =
     (let o1 = (if bm then ob\<lparr> materialColor := modelColor c \<rparr> else ob);
          o2 = (if bw then o1\<lparr> visible := showWireframe c \<rparr> else o1);
          o3 = (if bn then o2\<lparr> visible := showNormals c \<rparr> else o2);
          o4 = (if bg then o3\<lparr> visible := showGrid c \<rparr> else o3);
          o5 = (if ba then o4\<lparr> visible := showAxes c \<rparr> else o4)
      in if bl then o5\<lparr> intensity := lightingIntensity c \<rparr> else o5)"

definition releasesOf :: "viewer \<Rightarrow> event list" where
  "releasesOf st =
     (if controlsRef st \<noteq> None then [ControlsDispose] else []) @
     (if rendererRef st \<noteq> None then [RendererDispose] else []) @
     (case meshRef st of None \<Rightarrow> [] | Some m \<Rightarrow> [GeometryDispose m, MaterialDispose m]) @
     (case wireframeRef st of None \<Rightarrow> [] | Some w \<Rightarrow> [GeometryDispose w, MaterialDispose w]) @
     (case normalsHelperRef st of None \<Rightarrow> [] | Some n \<Rightarrow> [HelperDispose n])"

definition rm :: "nat option \<Rightarrow> nat list \<Rightarrow> nat list" where
  "rm r xs = (case r of None \<Rightarrow> xs | Some i \<Rightarrow> remove1 i xs)"

definition cleared :: "viewer \<Rightarrow> nat list \<Rightarrow> nat list" where
  "cleared st xs = rm (normalsHelperRef st) (rm (wireframeRef st) (rm (meshRef st) xs))"

definition clearEvents :: "viewer \<Rightarrow> event list" where
  "clearEvents st =
     (case meshRef st of
        None \<Rightarrow> []
      | Some m \<Rightarrow> [SceneRemove m, GeometryDispose m, MaterialDispose m]) @
     (case wireframeRef st of
        None \<Rightarrow> []
      | Some w \<Rightarrow> [SceneRemove w, GeometryDispose w, MaterialDispose w]) @
     (case normalsHelperRef st of None \<Rightarrow> [] | Some n \<Rightarrow> [SceneRemove n, HelperDispose n])"

definition cameraEvents :: "viewer \<Rightarrow> event list" where
  "cameraEvents st =
     (if cameraRef st \<noteq> None \<and> controlsRef st \<noteq> None then [CameraReset, ControlsUpdate]
      else [])"

section \<open>Properties of the statistics overlay\<close>

text \<open>
  C8. The triangle count shown in the statistics view is the byte length of the buffer
  divided by 50, rounded down: an estimate from the length alone. It is not the exact
  count of a binary STL image: for a buffer with the binary layout of \<open>n\<close> triangles
  (84 + 50 n bytes) the exact count \<open>(byteLength - 84) / 50\<close> is \<open>n\<close>, and the view
  shows \<open>n + 1\<close>.
\<close>

theorem stats_triangle_estimate:
  "map_option triangleCount (StatsOverlay (Some f)) = Some (byteLength (arrayBuffer f) div 50) \<and>
   (byteLength (arrayBuffer f) = binaryStlLength n \<longrightarrow>
      map_option triangleCount (StatsOverlay (Some f)) = Some (n + 1) \<and>
      exactBinaryCount (byteLength (arrayBuffer f)) = n)"
  by (simp add: StatsOverlay_def Let_def binaryStlLength_def exactBinaryCount_def)

theorem stats_triangle_estimate_witness:
  "byteLength (arrayBuffer triangleFile) = binaryStlLength 1 \<and>
   map_option triangleCount (StatsOverlay (Some triangleFile)) = Some 2 \<and>
   exactBinaryCount (byteLength (arrayBuffer triangleFile)) = 1"
  using stats_triangle_estimate [of triangleFile 1]
  by (simp add: triangleFile_def byteLength_def binaryStlLength_def)

text \<open>
  C10. The format label of the statistics view is \<open>Binary STL\<close> exactly when the buffer
  is longer than 84 bytes and \<open>ASCII STL\<close> otherwise. Two buffers of the same length get
  the same label whatever they contain, and the ASCII file \<open>asciiSample\<close> (105 bytes of
  text that start with \<open>solid\<close>) is labelled \<open>Binary STL\<close>.
\<close>

theorem stats_format_by_length:
  "map_option formatLabel (StatsOverlay (Some f)) =
     Some (if 84 < byteLength (arrayBuffer f) then ''Binary STL'' else ''ASCII STL'') \<and>
   (byteLength (arrayBuffer f) = byteLength (arrayBuffer g) \<longrightarrow>
      map_option formatLabel (StatsOverlay (Some f)) =
      map_option formatLabel (StatsOverlay (Some g))) \<and>
   (arrayBuffer f = asciiSample \<longrightarrow>
      take 5 (arrayBuffer f) = ''solid'' \<and>
      map_option formatLabel (StatsOverlay (Some f)) = Some ''Binary STL'')"
  by (simp add: StatsOverlay_def Let_def byteLength_def asciiSample_def)

theorem stats_format_by_length_witness:
  "arrayBuffer asciiFile = asciiSample \<and>
   byteLength (arrayBuffer asciiFile) = byteLength (arrayBuffer fillerFile) \<and>
   map_option formatLabel (StatsOverlay (Some asciiFile)) = Some ''Binary STL'' \<and>
   map_option formatLabel (StatsOverlay (Some fillerFile)) = Some ''Binary STL''"
proof -
  have a: "arrayBuffer asciiFile = asciiSample"
    by (simp add: asciiFile_def)
  have b: "byteLength (arrayBuffer asciiFile) = byteLength (arrayBuffer fillerFile)"
    by (simp add: asciiFile_def fillerFile_def byteLength_def asciiSample_def)
  from stats_format_by_length [of asciiFile fillerFile] a b
  have "map_option formatLabel (StatsOverlay (Some asciiFile)) = Some ''Binary STL''"
    and "map_option formatLabel (StatsOverlay (Some asciiFile)) =
         map_option formatLabel (StatsOverlay (Some fillerFile))"
    by blast+
  with a b show ?thesis by simp
qed

section \<open>Properties of the file intake\<close>

lemma toLowerChar_dot: "toLowerChar c = CHR ''.'' \<longleftrightarrow> c = CHR ''.''"
  by (cases c) (auto simp: toLowerChar_def Let_def char_of_def bit_Suc_0_iff)

lemma toLowerChar_s: "toLowerChar c = CHR ''s'' \<longleftrightarrow> c = CHR ''s'' \<or> c = CHR ''S''"
  by (cases c) (auto simp: toLowerChar_def Let_def char_of_def bit_Suc_0_iff)

lemma toLowerChar_t: "toLowerChar c = CHR ''t'' \<longleftrightarrow> c = CHR ''t'' \<or> c = CHR ''T''"
  by (cases c) (auto simp: toLowerChar_def Let_def char_of_def bit_Suc_0_iff)

lemma toLowerChar_l: "toLowerChar c = CHR ''l'' \<longleftrightarrow> c = CHR ''l'' \<or> c = CHR ''L''"
  by (cases c) (auto simp: toLowerChar_def Let_def char_of_def bit_Suc_0_iff)

lemma four_elements: "length xs = 4 \<Longrightarrow> \<exists>a b c d. xs = [a, b, c, d]"
  by (cases xs; simp; cases "tl xs"; simp; cases "tl (tl xs)"; simp; cases "tl (tl (tl xs))"; simp)

lemma endsWith_stl_iff: "endsWith (toLowerCase s) ''.stl'' \<longleftrightarrow> endsInStlAnyCase s"
proof
  assume h: "endsWith (toLowerCase s) ''.stl''"
  then have len: "4 \<le> length s" and dr: "map toLowerChar (drop (length s - 4) s) = ''.stl''"
    by (simp_all add: endsWith_def toLowerCase_def drop_map eval_nat_numeral)
  from len have "length (drop (length s - 4) s) = 4" by simp
  then obtain a b c d where suf: "drop (length s - 4) s = [a, b, c, d]"
    using four_elements by blast
  have split: "s = take (length s - 4) s @ [a, b, c, d]"
    using suf append_take_drop_id [of "length s - 4" s] by simp
  from dr suf have "toLowerChar a = CHR ''.''" "toLowerChar b = CHR ''s''"
      "toLowerChar c = CHR ''t''" "toLowerChar d = CHR ''l''"
    by simp_all
  then have "a = CHR ''.''" "b = CHR ''s'' \<or> b = CHR ''S''" "c = CHR ''t'' \<or> c = CHR ''T''"
      "d = CHR ''l'' \<or> d = CHR ''L''"
    by (simp_all add: toLowerChar_dot toLowerChar_s toLowerChar_t toLowerChar_l)
  with split show "endsInStlAnyCase s"
    unfolding endsInStlAnyCase_def by blast
next
  assume "endsInStlAnyCase s"
  then obtain pre c1 c2 c3 where s: "s = pre @ [CHR ''.'', c1, c2, c3]"
    and c: "toLowerChar c1 = CHR ''s''" "toLowerChar c2 = CHR ''t''" "toLowerChar c3 = CHR ''l''"
    unfolding endsInStlAnyCase_def toLowerChar_s toLowerChar_t toLowerChar_l by blast
  have d: "toLowerChar (CHR ''.'') = CHR ''.''" by (simp add: toLowerChar_dot)
  show "endsWith (toLowerCase s) ''.stl''"
    by (simp add: endsWith_def toLowerCase_def s c d)
qed

text \<open>
  C9, as the code has it. Both handlers look at the first file of the event and at no
  other. The first file is forwarded to \<^verbatim>\<open>onFileUpload\<close> if and only if its name ends
  in \<open>.stl\<close>, in any mix of cases. For any other name nothing is forwarded and nothing
  else is called: the file picker does nothing, the drop handler only resets the drag
  state. The files after the first make no difference, and an event without files
  forwards nothing.
\<close>

theorem intake_accepts_iff_stl:
  "handleFileSelect (file # rest) =
     (if endsInStlAnyCase (name file) then [OnFileUpload file] else []) \<and>
   handleDrop (file # rest) =
     [PreventDefault, SetIsDragOver False] @
     (if endsInStlAnyCase (name file) then [OnFileUpload file] else []) \<and>
   handleFileSelect [] = [] \<and>
   handleDrop [] = [PreventDefault, SetIsDragOver False]"
  by (simp add: handleFileSelect_def handleDrop_def endsWith_stl_iff)

theorem intake_accepts_iff_stl_witness:
  "handleFileSelect [triangleFile\<lparr> name := ''Part.StL'' \<rparr>] =
     [OnFileUpload (triangleFile\<lparr> name := ''Part.StL'' \<rparr>)] \<and>
   handleDrop [triangleFile\<lparr> name := ''notes.txt'' \<rparr>] = [PreventDefault, SetIsDragOver False]"
proof -
  have a: "endsInStlAnyCase ''Part.StL''"
    unfolding endsWith_stl_iff [symmetric] by code_simp
  have b: "\<not> endsInStlAnyCase ''notes.txt''"
    unfolding endsWith_stl_iff [symmetric] by code_simp
  show ?thesis
    using intake_accepts_iff_stl [of "triangleFile\<lparr> name := ''Part.StL'' \<rparr>" "[]"]
      intake_accepts_iff_stl [of "triangleFile\<lparr> name := ''notes.txt'' \<rparr>" "[]"] a b
    by simp
qed

text \<open>
  C9, as stated, fails for a file that is not the first of its event. A drop of
  \<open>notes.txt\<close> and \<open>triangle.stl\<close>, in this order, forwards nothing, and so does a
  selection of the two: the name of the second file ends in \<open>.stl\<close>, and the file is
  never looked at.
\<close>

theorem later_stl_file_not_forwarded:
  "name triangleFile = ''triangle.stl'' \<and> endsInStlAnyCase (name triangleFile) \<and>
   \<not> endsInStlAnyCase (name notesFile) \<and>
   handleDrop [notesFile, triangleFile] = [PreventDefault, SetIsDragOver False] \<and>
   handleFileSelect [notesFile, triangleFile] = []"
proof -
  have a: "name triangleFile = ''triangle.stl''" by code_simp
  have b: "endsInStlAnyCase (name triangleFile)"
    unfolding endsWith_stl_iff [symmetric] by code_simp
  have c: "\<not> endsInStlAnyCase (name notesFile)"
    unfolding endsWith_stl_iff [symmetric] by code_simp
  have d: "handleDrop [notesFile, triangleFile] = [PreventDefault, SetIsDragOver False]"
    by code_simp
  have e: "handleFileSelect [notesFile, triangleFile] = []" by code_simp
  from a b c d e show ?thesis by simp
qed

section \<open>Properties of the normalisation\<close>

lemma vx_simp: "vx (a, b, c) = a" and vy_simp: "vy (a, b, c) = b" and vz_simp: "vz (a, b, c) = c"
  by (simp_all add: vx_def vy_def vz_def)

lemma Min_affine:
  fixes s c :: real
  assumes "0 < s" "xs \<noteq> []"
  shows "Min ((\<lambda>v. s * (f v + c)) ` set xs) = s * (Min (f ` set xs) + c)"
proof -
  have m: "mono (\<lambda>a. s * (a + c))"
    using assms(1) by (simp add: mono_def)
  have "(\<lambda>a. s * (a + c)) (Min (f ` set xs)) = Min ((\<lambda>a. s * (a + c)) ` (f ` set xs))"
    using assms(2) by (intro mono_Min_commute [OF m]) simp_all
  then show ?thesis by (simp add: image_image)
qed

lemma Max_affine:
  fixes s c :: real
  assumes "0 < s" "xs \<noteq> []"
  shows "Max ((\<lambda>v. s * (f v + c)) ` set xs) = s * (Max (f ` set xs) + c)"
proof -
  have m: "mono (\<lambda>a. s * (a + c))"
    using assms(1) by (simp add: mono_def)
  have "(\<lambda>a. s * (a + c)) (Max (f ` set xs)) = Max ((\<lambda>a. s * (a + c)) ` (f ` set xs))"
    using assms(2) by (intro mono_Max_commute [OF m]) simp_all
  then show ?thesis by (simp add: image_image)
qed

lemma box_affine:
  assumes "0 < s" "vs \<noteq> []" "computeBoundingBox vs = Some (lo, hi)"
  shows "computeBoundingBox (map (affine s d) vs) = Some (affine s d lo, affine s d hi)"
proof -
  have lo: "lo = (Min (vx ` set vs), Min (vy ` set vs), Min (vz ` set vs))"
    and hi: "hi = (Max (vx ` set vs), Max (vy ` set vs), Max (vz ` set vs))"
    using assms(2,3) by (simp_all add: computeBoundingBox_def)
  have "computeBoundingBox (map (affine s d) vs) =
      Some ((Min ((\<lambda>v. s * (vx v + vx d)) ` set vs), Min ((\<lambda>v. s * (vy v + vy d)) ` set vs),
             Min ((\<lambda>v. s * (vz v + vz d)) ` set vs)),
            (Max ((\<lambda>v. s * (vx v + vx d)) ` set vs), Max ((\<lambda>v. s * (vy v + vy d)) ` set vs),
             Max ((\<lambda>v. s * (vz v + vz d)) ` set vs)))"
    using assms(2)
    by (simp add: computeBoundingBox_def image_image affine_def vx_simp vy_simp vz_simp)
  also have "\<dots> = Some (affine s d lo, affine s d hi)"
    using assms(1,2) by (simp add: Min_affine Max_affine lo hi affine_def vx_simp vy_simp vz_simp)
  finally show ?thesis .
qed

lemma translate_affine: "translate d vs = map (affine 1 d) vs"
  by (simp add: translate_def affine_def)

lemma scale_affine:
  "scaleGeometry (Num s) (map (affine 1 d) vs) =
     map (\<lambda>v. (Num (vx (affine s d v)), Num (vy (affine s d v)), Num (vz (affine s d v)))) vs"
  by (simp add: scaleGeometry_def jsTimes_def affine_def vx_simp vy_simp vz_simp)

lemma finite_affine:
  "finitePositions
     (map (\<lambda>v. (Num (vx (affine s d v)), Num (vy (affine s d v)), Num (vz (affine s d v)))) vs) =
   Some (map (affine s d) vs)"
  by (induction vs) (simp_all add: affine_def vx_simp vy_simp vz_simp)

text \<open>
  A geometry whose bounding box has a positive largest dimension is normalised as the
  specification says: centre at the origin, largest dimension 2.
\<close>

lemma normalize_nondegenerate:
  assumes ne: "geometry \<noteq> []"
    and pos: "0 < maxDimOf (getSize (computeBoundingBox geometry))"
  shows "centredWithTargetSize (normalizeGeometry geometry)"
proof -
  obtain lo hi where box: "computeBoundingBox geometry = Some (lo, hi)"
    using ne by (simp add: computeBoundingBox_def)
  define c where "c = getCenter (Some (lo, hi))"
  define d where "d = (- vx c, - vy c, - vz c)"
  define m where "m = maxDimOf (getSize (Some (lo, hi)))"
  define s where "s = 2 / m"
  have m_pos: "0 < m" using pos by (simp add: box m_def)
  have s_pos: "0 < s" using m_pos by (simp add: s_def)
  have cbox: "computeBoundingBox (map (affine 1 d) geometry) = Some (affine 1 d lo, affine 1 d hi)"
    by (rule box_affine [OF _ ne box]) simp
  have msize: "maxDimOf (getSize (Some (affine 1 d lo, affine 1 d hi))) = m"
    by (simp add: m_def getSize_def maxDimOf_def affine_def vx_simp vy_simp vz_simp)
  have norm: "normalizeGeometry geometry =
      map (\<lambda>v. (Num (vx (affine s d v)), Num (vy (affine s d v)), Num (vz (affine s d v)))) geometry"
    unfolding normalizeGeometry_def Let_def box c_def [symmetric] d_def [symmetric]
      translate_affine cbox msize
    using m_pos by (simp add: jsDivide_def scale_affine s_def)
  have fin: "finitePositions (normalizeGeometry geometry) = Some (map (affine s d) geometry)"
    unfolding norm by (rule finite_affine)
  have obox: "computeBoundingBox (map (affine s d) geometry) = Some (affine s d lo, affine s d hi)"
    by (rule box_affine [OF s_pos ne box])
  have c0: "getCenter (Some (affine s d lo, affine s d hi)) = (0, 0, 0)"
    by (simp add: getCenter_def affine_def d_def c_def vx_simp vy_simp vz_simp algebra_simps)
  have "maxDimOf (getSize (Some (affine s d lo, affine s d hi))) =
      max (s * (vx hi - vx lo)) (max (s * (vy hi - vy lo)) (s * (vz hi - vz lo)))"
    by (simp add: getSize_def maxDimOf_def affine_def vx_simp vy_simp vz_simp algebra_simps)
  also have "\<dots> = s * m"
    using s_pos
    by (simp add: m_def getSize_def maxDimOf_def vx_simp vy_simp vz_simp max_mult_distrib_left)
  also have "\<dots> = 2"
    using m_pos by (simp add: s_def)
  finally have m2: "maxDimOf (getSize (Some (affine s d lo, affine s d hi))) = 2" .
  show ?thesis
    using c0 m2 by (simp add: centredWithTargetSize_def fin obox)
qed

lemma normalize_nondegenerate_example:
  "centredWithTargetSize (normalizeGeometry [(0, 0, 0), (10, 0, 0), (0, 5, 0)])"
  by (rule normalize_nondegenerate)
     (simp_all add: computeBoundingBox_def getSize_def maxDimOf_def vx_def vy_def vz_def)

text \<open>
  C5. The property fails for a parsed mesh whose bounding box has no extent. The
  triangle \<open>pointTriangle\<close> has its three vertices at (1, 1, 1): the centred positions
  are all zero, \<open>maxDim\<close> is 0, the scale \<open>2 / 0\<close> is infinite and every coordinate
  becomes \<^verbatim>\<open>NaN\<close>. The normalised geometry is not centred with the target size.
\<close>

theorem normalize_zero_extent:
  "normalizeGeometry pointTriangle = [(NaN, NaN, NaN), (NaN, NaN, NaN), (NaN, NaN, NaN)] \<and>
   \<not> centredWithTargetSize (normalizeGeometry pointTriangle)"
proof -
  have n: "normalizeGeometry pointTriangle = [(NaN, NaN, NaN), (NaN, NaN, NaN), (NaN, NaN, NaN)]"
    by (simp add: pointTriangle_def normalizeGeometry_def Let_def computeBoundingBox_def
        getCenter_def getSize_def translate_def maxDimOf_def jsDivide_def scaleGeometry_def
        jsTimes_def vx_def vy_def vz_def)
  show ?thesis
    unfolding n by (simp add: centredWithTargetSize_def)
qed

section \<open>Properties of the control state\<close>

lemma throughRef_eq: "throughRef r f st = st\<lparr> objects := updAt r f (objects st) \<rparr>"
  by (cases r) (auto simp: throughRef_def modify_def updAt_def fun_eq_iff)

lemma setLightIntensity_apply:
  "setLightIntensity v ids objs j =
     (if j \<in> set ids \<and> isLight (kind (objs j)) then (objs j)\<lparr> intensity := v \<rparr> else objs j)"
  unfolding setLightIntensity_def
proof (induction ids arbitrary: objs)
  case Nil
  then show ?case by simp
next
  case (Cons i ids)
  show ?case
    by (auto simp: Cons.IH)
qed

lemma applyEffect_eq:
  "applyEffect sc st =
     (case sceneRef st of
        None \<Rightarrow> st
      | Some s \<Rightarrow>
          if \<not> isInitialized sc then st
          else st\<lparr> sceneRef := Some (s\<lparr> background := Some (backgroundColor (controls sc)) \<rparr>),
                   objects := applied (controls sc) st (children s) (objects st) \<rparr>)"
  by (cases "sceneRef st") (simp_all add: applyEffect_def throughRef_eq Let_def applied_def)

lemma kind_updAt: "(\<And>ob. kind (f ob) = kind ob) \<Longrightarrow> kind (updAt r f objs j) = kind (objs j)"
  by (simp add: updAt_def)

lemma kind_objApplied: "kind (objApplied c bm bw bn bg ba bl ob) = kind ob"
  by (cases bm; cases bw; cases bn; cases bg; cases ba; cases bl; simp add: objApplied_def)

lemma objApplied_idem:
  "objApplied c bm bw bn bg ba bl (objApplied c bm bw bn bg ba bl ob) =
   objApplied c bm bw bn bg ba bl ob"
  by (cases bm; cases bw; cases bn; cases bg; cases ba; cases bl; simp add: objApplied_def)

lemma applied_apply:
  "applied c st ids objs j =
     objApplied c (meshRef st = Some j) (wireframeRef st = Some j) (normalsHelperRef st = Some j)
       (gridHelperRef st = Some j) (axesHelperRef st = Some j)
       (j \<in> set ids \<and> isLight (kind (objs j))) (objs j)"
  unfolding applied_def setLightIntensity_apply
  by (simp add: kind_updAt) (simp add: updAt_def objApplied_def Let_def)

lemma applied_idem: "applied c st ids (applied c st ids objs) = applied c st ids objs"
  by (rule ext) (simp add: applied_apply kind_objApplied objApplied_idem)

lemma applied_cong:
  "meshRef st' = meshRef st \<Longrightarrow> wireframeRef st' = wireframeRef st \<Longrightarrow>
   normalsHelperRef st' = normalsHelperRef st \<Longrightarrow> gridHelperRef st' = gridHelperRef st \<Longrightarrow>
   axesHelperRef st' = axesHelperRef st \<Longrightarrow> applied c st' = applied c st"
  by (simp add: applied_def fun_eq_iff)

lemma applyEffect_idem: "applyEffect sc (applyEffect sc st) = applyEffect sc st"
proof (cases "sceneRef st")
  case None
  then show ?thesis by (simp add: applyEffect_eq)
next
  case (Some s)
  show ?thesis
  proof (cases "isInitialized sc")
    case False
    then show ?thesis by (simp add: applyEffect_eq Some)
  next
    case True
    let ?st' = "st\<lparr> sceneRef := Some (s\<lparr> background := Some (backgroundColor (controls sc)) \<rparr>),
                   objects := applied (controls sc) st (children s) (objects st) \<rparr>"
    have 1: "applyEffect sc st = ?st'"
      by (simp add: applyEffect_eq Some True)
    have 2: "applied (controls sc) ?st' = applied (controls sc) st"
      by (rule applied_cong) simp_all
    have "applyEffect sc ?st' = ?st'"
      by (simp add: applyEffect_eq True 2 applied_idem)
    then show ?thesis by (simp only: 1)
  qed
qed

lemma applyEffect_frame:
  "trace (applyEffect sc st) = trace st \<and> nextId (applyEffect sc st) = nextId st \<and>
   sceneChildren (applyEffect sc st) = sceneChildren st \<and>
   pendingFrames (applyEffect sc st) = pendingFrames st \<and>
   animationFrameRef (applyEffect sc st) = animationFrameRef st"
  by (cases "sceneRef st") (simp_all add: applyEffect_eq sceneChildren_def)

text \<open>
  C1. Applying a control state a second time changes nothing: the state after the second
  application is the state after the first. An application creates and releases
  nothing: it makes no call of the trace (no object added to or removed from the scene,
  nothing disposed), hands out no identity, and leaves the children of the scene as they
  are. The background is a colour value, written again with the same value.
\<close>

theorem applyEffect_idempotent:
  "applyEffect sc (applyEffect sc st) = applyEffect sc st \<and>
   trace (applyEffect sc st) = trace st \<and>
   nextId (applyEffect sc st) = nextId st \<and>
   sceneChildren (applyEffect sc st) = sceneChildren st"
  using applyEffect_idem [of sc st] applyEffect_frame [of sc st] by simp

theorem applyEffect_idempotent_witness:
  "applyEffect spinning (applyEffect spinning shown) = applyEffect spinning shown \<and>
   trace (applyEffect spinning shown) = trace shown \<and>
   sceneChildren (applyEffect spinning shown) = [4, 5, 6, 7, 8, 9, 10] \<and>
   map (\<lambda>i. visible (objects (applyEffect spinning shown) i)) [6, 7, 8, 9, 10] =
     [True, True, True, False, False]"
proof -
  have c: "sceneChildren shown = [4, 5, 6, 7, 8, 9, 10]" by code_simp
  have v: "map (\<lambda>i. visible (objects (applyEffect spinning shown) i)) [6, 7, 8, 9, 10] =
     [True, True, True, False, False]" by code_simp
  show ?thesis
    using applyEffect_idempotent [of spinning shown] c v by simp
qed

section \<open>Properties of initialisation, the loop and teardown\<close>

lemma animate_eq:
  "animate c st =
     st\<lparr> pendingFrames := pendingFrames st @ [(nextHandle st, c)],
         nextHandle := nextHandle st + 1,
         animationFrameRef := nextHandle st,
         objects :=
           (case meshRef st of
              None \<Rightarrow> objects st
            | Some m \<Rightarrow>
                if rotationSpeed c > 0
                then (objects st)
                       (m := (objects st m)\<lparr> rotationY := rotationY (objects st m) + rotationSpeed c * (1 / 100) \<rparr>)
                else objects st),
         trace := trace st @ [RequestAnimationFrame (nextHandle st)] @
                  (if controlsRef st \<noteq> None then [ControlsUpdate] else []) @
                  (if rendererRef st \<noteq> None \<and> sceneRef st \<noteq> None \<and> cameraRef st \<noteq> None
                   then [Render] else []) \<rparr>"
  by (cases "meshRef st"; cases "rotationSpeed c > 0"; cases "controlsRef st"; cases "rendererRef st";
      cases "sceneRef st"; cases "cameraRef st")
     (simp_all add: animate_def emit_def modify_def Let_def)

text \<open>
  A tick rotates the mesh by the speed of the controls that the scheduled closure has
  captured, times 0.01, when that speed is positive, and not at all otherwise.
\<close>

lemma animate_rotation:
  "meshRef st = Some m \<Longrightarrow>
   rotationY (objects (animate c st) m) =
     (if rotationSpeed c > 0 then rotationY (objects st m) + rotationSpeed c * (1 / 100)
      else rotationY (objects st m))"
  by (simp add: animate_eq)

lemma singleLoop_animate: "pendingFrames st = [] \<Longrightarrow> singleLoop (animate c st)"
  by (simp add: animate_eq singleLoop_def)

lemma animationFrame_idle: "pendingFrames st = [] \<Longrightarrow> animationFrame st = st"
proof -
  assume h: "pendingFrames st = []"
  have "animationFrame st = st\<lparr> pendingFrames := pendingFrames st \<rparr>"
    unfolding animationFrame_def by (simp add: h)
  then show ?thesis by simp
qed

lemma singleLoop_animationFrame: "singleLoop st \<Longrightarrow> singleLoop (animationFrame st)"
proof (cases "pendingFrames st")
  case Nil
  assume "singleLoop st"
  then show ?thesis by (simp add: animationFrame_idle [OF Nil])
next
  case (Cons p ps)
  assume "singleLoop st"
  with Cons have ps: "ps = []" by (simp add: singleLoop_def)
  have "animationFrame st = animate (snd p) (st\<lparr> pendingFrames := [] \<rparr>)"
    by (simp add: animationFrame_def Cons ps)
  then show ?thesis by (simp add: singleLoop_animate)
qed

text \<open>
  When the render that created the callback is one of an initialised component,
  \<^verbatim>\<open>initThreeJS\<close> returns at once.
\<close>

lemma initThreeJS_guarded:
  "isInitializedState st \<Longrightarrow> initThreeJS (renderScope stl c st) st = st"
  by (simp add: initThreeJS_def renderScope_def)

lemma releasesOf_release: "list_all isRelease (releasesOf st)"
  by (simp add: releasesOf_def split: option.splits)

lemma cleanup_eq:
  "cleanup st =
     st\<lparr> resizeListeners := resizeListeners st - 1,
         pendingFrames := filter (\<lambda>p. fst p \<noteq> animationFrameRef st) (pendingFrames st),
         trace := trace st @ [RemoveResizeListener, CancelAnimationFrame (animationFrameRef st)] @
                  releasesOf st \<rparr>"
  by (cases "controlsRef st"; cases "rendererRef st"; cases "meshRef st"; cases "wireframeRef st";
      cases "normalsHelperRef st")
     (simp_all add: cleanup_def cancelAnimationFrame_def emit_def releasesOf_def Let_def)

lemma singleLoop_filter:
  "singleLoop st \<Longrightarrow> filter (\<lambda>p. fst p \<noteq> animationFrameRef st) (pendingFrames st) = []"
  by (auto simp: singleLoop_def list_all_iff filter_empty_conv)

lemma funpow_fixed: "f x = x \<Longrightarrow> (f ^^ n) x = x"
  by (induction n) simp_all

text \<open>
  C4. In a state where at most one frame callback is scheduled and
  \<open>animationFrameRef\<close> holds its handle, the teardown leaves no callback scheduled: any
  number of display refreshes after it run nothing, so nothing is rendered. Its calls
  are, in this order: the listener is removed, the frame is cancelled (once), and only
  then the controller, the renderer, the geometries and the materials are released.
\<close>

theorem teardown_cancels_before_release:
  assumes "singleLoop st"
  shows "pendingFrames (cleanup st) = [] \<and>
         (animationFrame ^^ n) (cleanup st) = cleanup st \<and>
         (\<exists>released.
            trace (cleanup st) =
              trace st @ [RemoveResizeListener, CancelAnimationFrame (animationFrameRef st)] @
              released \<and>
            list_all isRelease released)"
proof -
  have p: "pendingFrames (cleanup st) = []"
    using singleLoop_filter [OF assms] by (simp add: cleanup_eq)
  have t: "trace (cleanup st) =
      trace st @ [RemoveResizeListener, CancelAnimationFrame (animationFrameRef st)] @ releasesOf st"
    by (simp add: cleanup_eq)
  from p have "animationFrame (cleanup st) = cleanup st" by (rule animationFrame_idle)
  then have "(animationFrame ^^ n) (cleanup st) = cleanup st" by (rule funpow_fixed)
  with p t releasesOf_release show ?thesis by blast
qed

theorem teardown_cancels_before_release_witness:
  "singleLoop shown \<and> pendingFrames shown = [(1, defaultControls)] \<and>
   pendingFrames (cleanup shown) = [] \<and>
   (animationFrame ^^ 3) (cleanup shown) = cleanup shown \<and>
   trace (cleanup shown) =
     trace shown @
     [RemoveResizeListener, CancelAnimationFrame 1, ControlsDispose, RendererDispose,
      GeometryDispose 8, MaterialDispose 8, GeometryDispose 9, MaterialDispose 9,
      HelperDispose 10]"
proof -
  have h: "singleLoop shown" by code_simp
  have p: "pendingFrames shown = [(1, defaultControls)]" by code_simp
  have t: "trace (cleanup shown) =
     trace shown @
     [RemoveResizeListener, CancelAnimationFrame 1, ControlsDispose, RendererDispose,
      GeometryDispose 8, MaterialDispose 8, GeometryDispose 9, MaterialDispose 9,
      HelperDispose 10]" by code_simp
  from teardown_cancels_before_release [OF h, of 3]
  have "pendingFrames (cleanup shown) = []"
    and "(animationFrame ^^ 3) (cleanup shown) = cleanup shown" by blast+
  with h p t show ?thesis by simp
qed

lemma kind_animate: "kind (objects (animate c st) i) = kind (objects st i)"
  by (cases "meshRef st") (simp_all add: animate_eq)

lemma sceneChildren_animate: "sceneChildren (animate c st) = sceneChildren st"
  by (simp add: animate_eq sceneChildren_def)

lemma added_eq:
  "sceneAdd i (modify i (\<lambda>_. ob) st) =
     st\<lparr> sceneRef := map_option (\<lambda>s. s\<lparr> children := children s @ [i] \<rparr>) (sceneRef st),
         objects := (objects st)(i := ob),
         trace := trace st @ [SceneAdd i] \<rparr>"
  by (simp add: sceneAdd_def modify_def emit_def)

lemma initThreeJS_fields:
  assumes "canvasRef st" "\<not> isInitialized sc"
  shows "sceneChildren (initThreeJS sc st) =
           [nextId st + 4, nextId st + 5, nextId st + 6, nextId st + 7] \<and>
         nextId (initThreeJS sc st) = nextId st + 8 \<and>
         map (\<lambda>i. kind (objects (initThreeJS sc st) i))
           [nextId st + 4, nextId st + 5, nextId st + 6, nextId st + 7] =
           [AmbientLight, DirectionalLight, GridHelper, AxesHelper] \<and>
         pendingFrames (initThreeJS sc st) = pendingFrames st @ [(nextHandle st, controls sc)] \<and>
         animationFrameRef (initThreeJS sc st) = nextHandle st \<and>
         isInitializedState (initThreeJS sc st)"
proof -
  define s where "s = nextId st"
  define st1 where "st1 = st\<lparr> sceneRef := Some \<lparr> sceneId = s, children = [], background = None \<rparr>,
      cameraRef := Some (s + 1), rendererRef := Some (s + 2), controlsRef := Some (s + 3),
      nextId := s + 8 \<rparr>"
  define st2 where "st2 = sceneAdd (s + 4) (modify (s + 4) (\<lambda>_. light AmbientLight (6 / 10)) st1)"
  define st3 where "st3 = sceneAdd (s + 5) (modify (s + 5) (\<lambda>_. light DirectionalLight (8 / 10)) st2)"
  define st4 where "st4 = (sceneAdd (s + 6) (modify (s + 6) (\<lambda>_. helper GridHelper) st3))
      \<lparr> gridHelperRef := Some (s + 6) \<rparr>"
  define st5 where "st5 = (sceneAdd (s + 7) (modify (s + 7) (\<lambda>_. helper AxesHelper) st4))
      \<lparr> axesHelperRef := Some (s + 7) \<rparr>"
  define st6 where "st6 = st5\<lparr> sceneRef :=
      map_option (\<lambda>sn. sn\<lparr> background := Some (backgroundColor (controls sc)) \<rparr>) (sceneRef st5) \<rparr>"
  have i: "initThreeJS sc st = (animate (controls sc) st6)\<lparr> isInitializedState := True \<rparr>"
    unfolding initThreeJS_def Let_def st6_def st5_def st4_def st3_def st2_def st1_def s_def
    using assms by simp
  have f2: "sceneChildren st2 = [s + 4]" "nextId st2 = s + 8" "pendingFrames st2 = pendingFrames st"
      "nextHandle st2 = nextHandle st" "kind (objects st2 (s + 4)) = AmbientLight"
    by (simp_all add: st2_def added_eq st1_def sceneChildren_def light_def)
  have f3: "sceneChildren st3 = [s + 4, s + 5]" "nextId st3 = s + 8"
      "pendingFrames st3 = pendingFrames st" "nextHandle st3 = nextHandle st"
      "kind (objects st3 (s + 4)) = AmbientLight" "kind (objects st3 (s + 5)) = DirectionalLight"
    using f2 by (auto simp: st3_def added_eq sceneChildren_def light_def split: option.splits)
  have f4: "sceneChildren st4 = [s + 4, s + 5, s + 6]" "nextId st4 = s + 8"
      "pendingFrames st4 = pendingFrames st" "nextHandle st4 = nextHandle st"
      "kind (objects st4 (s + 4)) = AmbientLight" "kind (objects st4 (s + 5)) = DirectionalLight"
      "kind (objects st4 (s + 6)) = GridHelper"
    using f3 by (auto simp: st4_def added_eq sceneChildren_def helper_def split: option.splits)
  have f5: "sceneChildren st5 = [s + 4, s + 5, s + 6, s + 7]" "nextId st5 = s + 8"
      "pendingFrames st5 = pendingFrames st" "nextHandle st5 = nextHandle st"
      "kind (objects st5 (s + 4)) = AmbientLight" "kind (objects st5 (s + 5)) = DirectionalLight"
      "kind (objects st5 (s + 6)) = GridHelper" "kind (objects st5 (s + 7)) = AxesHelper"
    using f4 by (auto simp: st5_def added_eq sceneChildren_def helper_def split: option.splits)
  have f6: "sceneChildren st6 = [s + 4, s + 5, s + 6, s + 7]" "nextId st6 = s + 8"
      "pendingFrames st6 = pendingFrames st" "nextHandle st6 = nextHandle st"
      "kind (objects st6 (s + 4)) = AmbientLight" "kind (objects st6 (s + 5)) = DirectionalLight"
      "kind (objects st6 (s + 6)) = GridHelper" "kind (objects st6 (s + 7)) = AxesHelper"
    using f5 by (auto simp: st6_def sceneChildren_def split: option.splits)
  have a: "nextId (animate (controls sc) st6) = nextId st6"
      "pendingFrames (animate (controls sc) st6) = pendingFrames st6 @ [(nextHandle st6, controls sc)]"
      "animationFrameRef (animate (controls sc) st6) = nextHandle st6"
    by (simp_all add: animate_eq)
  have c: "sceneChildren (initThreeJS sc st) = sceneChildren (animate (controls sc) st6)"
    unfolding i by (simp add: sceneChildren_def)
  have k: "\<And>j. kind (objects (initThreeJS sc st) j) = kind (objects st6 j)"
    unfolding i by (simp add: kind_animate)
  show ?thesis
    unfolding c k sceneChildren_animate
    using f6 a by (simp add: i s_def)
qed


text \<open>
  The guard reads the \<^verbatim>\<open>isInitialized\<close> of the render that created the callback. A
  callback of a render in which it was false builds a whole new set whenever there is a
  canvas, whatever the state of the component: a scene, a camera, a renderer and a
  controller with new identities, and one more scheduled frame.
\<close>

lemma stale_scope_not_noop:
  assumes "canvasRef st" "\<not> isInitialized sc"
  shows "initThreeJS sc st \<noteq> st \<and>
         nextId (initThreeJS sc st) = nextId st + 8 \<and>
         pendingFrames (initThreeJS sc st) = pendingFrames st @ [(nextHandle st, controls sc)]"
proof -
  note f = initThreeJS_fields [OF assms]
  from f have n: "nextId (initThreeJS sc st) = nextId st + 8" by simp
  then have "initThreeJS sc st \<noteq> st" by (metis add_eq_self_zero zero_neq_numeral)
  with f show ?thesis by simp
qed

text \<open>
  The two invariants hold after an initialisation: the scene holds the lights and the
  two helpers only, and one frame callback is scheduled.
\<close>

lemma refsCoverScene_initThreeJS:
  assumes "canvasRef st" "\<not> isInitialized sc"
  shows "refsCoverScene (initThreeJS sc st)"
proof -
  note f = initThreeJS_fields [OF assms]
  have c: "sceneChildren (initThreeJS sc st) =
      [nextId st + 4, nextId st + 5, nextId st + 6, nextId st + 7]"
    and n: "nextId (initThreeJS sc st) = nextId st + 8"
    using f by simp_all
  have k: "ofKind Mesh (initThreeJS sc st) = []" "ofKind LineSegments (initThreeJS sc st) = []"
      "ofKind VertexNormalsHelper (initThreeJS sc st) = []"
    using f by (simp_all add: ofKind_def c)
  show ?thesis
    unfolding refsCoverScene_def k c n by simp
qed

lemma singleLoop_initThreeJS:
  assumes "canvasRef st" "\<not> isInitialized sc" "pendingFrames st = []"
  shows "singleLoop (initThreeJS sc st)"
  using initThreeJS_fields [OF assms(1,2)] by (simp add: singleLoop_def assms(3))

lemma refsCoverScene_animate: "refsCoverScene (animate c st) = refsCoverScene st"
proof -
  have k: "\<And>k. ofKind k (animate c st) = ofKind k st"
    by (simp add: ofKind_def kind_animate sceneChildren_animate)
  have r: "meshRef (animate c st) = meshRef st" "wireframeRef (animate c st) = wireframeRef st"
      "normalsHelperRef (animate c st) = normalsHelperRef st" "nextId (animate c st) = nextId st"
    by (simp_all add: animate_eq)
  show ?thesis
    unfolding refsCoverScene_def k r sceneChildren_animate by simp
qed

text \<open>
  The second run of the init effect in an initialised component: the cleanup runs, then
  \<^verbatim>\<open>initThreeJS\<close> returns at once and the resize listener is registered again. Nothing
  is created and nothing is scheduled; the frame that was scheduled has been cancelled.
\<close>

lemma rerunInitEffect_initialized:
  assumes "isInitializedState st" "singleLoop st"
  shows "rerunInitEffect (renderScope stl c st) st =
           (cleanup st)\<lparr> resizeListeners := resizeListeners st - 1 + 1,
                         trace := trace (cleanup st) @ [AddResizeListener] \<rparr> \<and>
         pendingFrames (rerunInitEffect (renderScope stl c st) st) = [] \<and>
         sceneRef (rerunInitEffect (renderScope stl c st) st) = sceneRef st \<and>
         nextId (rerunInitEffect (renderScope stl c st) st) = nextId st"
proof -
  have i: "initThreeJS (renderScope stl c st) (cleanup st) = cleanup st"
    using assms(1) by (simp add: initThreeJS_def renderScope_def)
  have e: "rerunInitEffect (renderScope stl c st) st =
           (cleanup st)\<lparr> resizeListeners := resizeListeners st - 1 + 1,
                         trace := trace (cleanup st) @ [AddResizeListener] \<rparr>"
    unfolding rerunInitEffect_def initEffect_def i by (simp add: Let_def emit_def cleanup_eq)
  show ?thesis
    unfolding e using singleLoop_filter [OF assms(2)] by (simp add: cleanup_eq)
qed

text \<open>
  C6. The speed of a tick is not the speed of the applied control state. The component
  is initialised with the starting controls (speed 0), a mesh is shown, and the control
  state \<open>spinning\<close> with speed 2 is applied. The scheduled callback still holds the
  starting controls, and the display refreshes that follow leave the rotation of the
  mesh at 0. The same holds when the init effect has run a second time after the
  initialisation (\<open>recommitted\<close>): then no callback is scheduled at all.
\<close>

theorem tick_uses_captured_speed:
  "rotationSpeed (controls spinning) = 2 \<and>
   meshRef (applyEffect spinning shown) = Some 8 \<and>
   pendingFrames (applyEffect spinning shown) = [(1, defaultControls)] \<and>
   rotationY (objects (applyEffect spinning shown) 8) = 0 \<and>
   rotationY (objects (animationFrame (applyEffect spinning shown)) 8) = 0 \<and>
   rotationY (objects ((animationFrame ^^ 5) (applyEffect spinning shown)) 8) = 0 \<and>
   pendingFrames recommitted = [] \<and>
   meshRef (applyEffect spinning (loadEffect sampleParse None loading recommitted)) = Some 8 \<and>
   rotationY
     (objects
        ((animationFrame ^^ 5)
           (applyEffect spinning (loadEffect sampleParse None loading recommitted))) 8) = 0"
  by code_simp


section \<open>Properties of loading\<close>

lemma clearPrevious_eq:
  "clearPrevious st =
     st\<lparr> sceneRef := map_option (\<lambda>s. s\<lparr> children := cleared st (children s) \<rparr>) (sceneRef st),
         trace := trace st @ clearEvents st \<rparr>"
  by (cases "meshRef st"; cases "wireframeRef st"; cases "normalsHelperRef st"; cases "sceneRef st")
     (simp_all add: clearPrevious_def sceneRemove_def emit_def clearEvents_def cleared_def rm_def Let_def)

lemma createMesh_eq:
  "createMesh sc g st =
     st\<lparr> sceneRef := map_option (\<lambda>s. s\<lparr> children := children s @ [nextId st] \<rparr>) (sceneRef st),
         meshRef := Some (nextId st),
         objects := (objects st)(nextId st := meshObject sc g),
         nextId := nextId st + 1,
         trace := trace st @ [SceneAdd (nextId st)] \<rparr>"
  by (simp add: createMesh_def sceneAdd_def modify_def emit_def Let_def)

lemma createWireframe_eq:
  "createWireframe sc g st =
     st\<lparr> sceneRef := map_option (\<lambda>s. s\<lparr> children := children s @ [nextId st] \<rparr>) (sceneRef st),
         wireframeRef := Some (nextId st),
         objects := (objects st)(nextId st := wireframeObject sc g),
         nextId := nextId st + 1,
         trace := trace st @ [SceneAdd (nextId st)] \<rparr>"
  by (simp add: createWireframe_def sceneAdd_def modify_def emit_def Let_def)

lemma createNormalsHelper_eq:
  "createNormalsHelper sc g st =
     st\<lparr> sceneRef := map_option (\<lambda>s. s\<lparr> children := children s @ [nextId st] \<rparr>) (sceneRef st),
         normalsHelperRef := Some (nextId st),
         objects := (objects st)(nextId st := normalsObject sc g),
         nextId := nextId st + 1,
         trace := trace st @ [SceneAdd (nextId st)] \<rparr>"
  by (simp add: createNormalsHelper_def sceneAdd_def modify_def emit_def Let_def)

lemma resetCamera_eq: "resetCamera st = st\<lparr> trace := trace st @ cameraEvents st \<rparr>"
  by (simp add: resetCamera_def emit_def cameraEvents_def)

lemma cameraEvents_cong:
  "cameraRef st' = cameraRef st \<Longrightarrow> controlsRef st' = controlsRef st \<Longrightarrow>
   cameraEvents st' = cameraEvents st"
  by (simp add: cameraEvents_def)

lemma loadSTL_success_eq:
  assumes "parse (arrayBuffer stl) = Some parsed" "sceneRef st = Some s"
  shows "loadSTL parse None sc stl st =
     st\<lparr> sceneRef := Some (s\<lparr> children := cleared st (children s) @
                                   [nextId st, nextId st + 1, nextId st + 2] \<rparr>),
         meshRef := Some (nextId st),
         wireframeRef := Some (nextId st + 1),
         normalsHelperRef := Some (nextId st + 2),
         objects := (objects st)
            (nextId st := meshObject sc (normalizeGeometry parsed),
             nextId st + 1 := wireframeObject sc (normalizeGeometry parsed),
             nextId st + 2 := normalsObject sc (normalizeGeometry parsed)),
         nextId := nextId st + 3,
         trace := trace st @ clearEvents st @
                  [SceneAdd (nextId st), SceneAdd (nextId st + 1), SceneAdd (nextId st + 2)] @
                  cameraEvents st \<rparr>"
proof -
  define g where "g = normalizeGeometry parsed"
  define st1 where "st1 = clearPrevious st"
  define st2 where "st2 = createMesh sc g st1"
  define st3 where "st3 = createWireframe sc g st2"
  define st4 where "st4 = createNormalsHelper sc g st3"
  have l: "loadSTL parse None sc stl st = resetCamera st4"
    by (simp add: loadSTL_def assms(1) Let_def st4_def st3_def st2_def st1_def g_def)
  have e1: "st1 = st\<lparr> sceneRef := Some (s\<lparr> children := cleared st (children s) \<rparr>),
                      trace := trace st @ clearEvents st \<rparr>"
    by (simp add: st1_def clearPrevious_eq assms(2))
  have e2: "st2 = st\<lparr> sceneRef := Some (s\<lparr> children := cleared st (children s) @ [nextId st] \<rparr>),
                      meshRef := Some (nextId st),
                      objects := (objects st)(nextId st := meshObject sc g),
                      nextId := nextId st + 1,
                      trace := trace st @ clearEvents st @ [SceneAdd (nextId st)] \<rparr>"
    unfolding st2_def createMesh_eq by (simp add: e1)
  have e3: "st3 = st\<lparr> sceneRef := Some (s\<lparr> children := cleared st (children s) @
                                                [nextId st, nextId st + 1] \<rparr>),
                      meshRef := Some (nextId st),
                      wireframeRef := Some (nextId st + 1),
                      objects := (objects st)(nextId st := meshObject sc g,
                                              nextId st + 1 := wireframeObject sc g),
                      nextId := nextId st + 2,
                      trace := trace st @ clearEvents st @
                               [SceneAdd (nextId st), SceneAdd (nextId st + 1)] \<rparr>"
    unfolding st3_def createWireframe_eq by (simp add: e2)
  have e4: "st4 = st\<lparr> sceneRef := Some (s\<lparr> children := cleared st (children s) @
                                                [nextId st, nextId st + 1, nextId st + 2] \<rparr>),
                      meshRef := Some (nextId st),
                      wireframeRef := Some (nextId st + 1),
                      normalsHelperRef := Some (nextId st + 2),
                      objects := (objects st)(nextId st := meshObject sc g,
                                              nextId st + 1 := wireframeObject sc g,
                                              nextId st + 2 := normalsObject sc g),
                      nextId := nextId st + 3,
                      trace := trace st @ clearEvents st @
                               [SceneAdd (nextId st), SceneAdd (nextId st + 1),
                                SceneAdd (nextId st + 2)] \<rparr>"
    unfolding st4_def createNormalsHelper_eq by (simp add: e3)
  have c: "cameraEvents st4 = cameraEvents st"
    by (rule cameraEvents_cong) (simp_all add: e4)
  show ?thesis
    unfolding l resetCamera_eq c by (simp add: e4 g_def)
qed

lemma set_rm: "distinct xs \<Longrightarrow> set (rm r xs) = set xs - set_option r"
  by (cases r) (simp_all add: rm_def)

lemma distinct_rm: "distinct xs \<Longrightarrow> distinct (rm r xs)"
  by (cases r) (simp_all add: rm_def)

lemma set_cleared:
  "distinct xs \<Longrightarrow>
   set (cleared st xs) =
     set xs - set_option (meshRef st) - set_option (wireframeRef st) - set_option (normalsHelperRef st)"
  by (simp add: cleared_def set_rm distinct_rm)

lemma distinct_cleared: "distinct xs \<Longrightarrow> distinct (cleared st xs)"
  by (simp add: cleared_def distinct_rm)

text \<open>
  A successful load keeps the invariant and leaves exactly the three new objects as the
  mesh, the wireframe and the normals object of the scene.
\<close>

lemma load_success_inv:
  assumes inv: "refsCoverScene st"
    and p: "parse (arrayBuffer stl) = Some parsed"
    and s: "sceneRef st = Some s"
  shows "refsCoverScene (loadSTL parse None sc stl st) \<and>
         ofKind Mesh (loadSTL parse None sc stl st) = [nextId st] \<and>
         ofKind LineSegments (loadSTL parse None sc stl st) = [nextId st + 1] \<and>
         ofKind VertexNormalsHelper (loadSTL parse None sc stl st) = [nextId st + 2] \<and>
         meshRef (loadSTL parse None sc stl st) = Some (nextId st) \<and>
         wireframeRef (loadSTL parse None sc stl st) = Some (nextId st + 1) \<and>
         normalsHelperRef (loadSTL parse None sc stl st) = Some (nextId st + 2) \<and>
         nextId (loadSTL parse None sc stl st) = nextId st + 3 \<and>
         sceneRef (loadSTL parse None sc stl st) \<noteq> None"
proof -
  let ?st' = "loadSTL parse None sc stl st"
  let ?m = "nextId st"
  let ?K = "cleared st (children s)"
  note eq = loadSTL_success_eq [of parse stl parsed st s sc, OF p s]
  have d: "distinct (children s)" and lt: "\<forall>i\<in>set (children s). i < ?m"
    and km: "\<forall>i\<in>set (children s). kind (objects st i) = Mesh \<longrightarrow> meshRef st = Some i"
    and kw: "\<forall>i\<in>set (children s). kind (objects st i) = LineSegments \<longrightarrow> wireframeRef st = Some i"
    and kn: "\<forall>i\<in>set (children s). kind (objects st i) = VertexNormalsHelper \<longrightarrow>
               normalsHelperRef st = Some i"
    using inv by (auto simp: refsCoverScene_def sceneChildren_def ofKind_def s list_all_iff)
  have setK: "set ?K = set (children s) - set_option (meshRef st) - set_option (wireframeRef st)
      - set_option (normalsHelperRef st)"
    by (rule set_cleared [OF d])
  have dK: "distinct ?K" by (rule distinct_cleared [OF d])
  have ch: "sceneChildren ?st' = ?K @ [?m, ?m + 1, ?m + 2]"
    by (simp add: eq sceneChildren_def)
  have ob: "\<And>i. i \<in> set ?K \<Longrightarrow> objects ?st' i = objects st i"
    using lt setK by (auto simp: eq)
  have om: "kind (objects ?st' ?m) = Mesh" "kind (objects ?st' (?m + 1)) = LineSegments"
      "kind (objects ?st' (?m + 2)) = VertexNormalsHelper"
    by (simp_all add: eq meshObject_def wireframeObject_def normalsObject_def)
  have fm: "filter (\<lambda>i. kind (objects ?st' i) = Mesh) ?K = []"
    using km setK ob by (auto simp: filter_empty_conv)
  have fw: "filter (\<lambda>i. kind (objects ?st' i) = LineSegments) ?K = []"
    using kw setK ob by (auto simp: filter_empty_conv)
  have fn: "filter (\<lambda>i. kind (objects ?st' i) = VertexNormalsHelper) ?K = []"
    using kn setK ob by (auto simp: filter_empty_conv)
  have k1: "ofKind Mesh ?st' = [?m]"
    unfolding ofKind_def ch using om by (simp add: fm)
  have k2: "ofKind LineSegments ?st' = [?m + 1]"
    unfolding ofKind_def ch using om by (simp add: fw)
  have k3: "ofKind VertexNormalsHelper ?st' = [?m + 2]"
    unfolding ofKind_def ch using om by (simp add: fn)
  have r: "meshRef ?st' = Some ?m" "wireframeRef ?st' = Some (?m + 1)"
      "normalsHelperRef ?st' = Some (?m + 2)" "nextId ?st' = ?m + 3" "sceneRef ?st' \<noteq> None"
    by (simp_all add: eq)
  have dist: "distinct (sceneChildren ?st')"
    unfolding ch using dK lt setK by auto
  have bound: "list_all (\<lambda>i. i < nextId ?st') (sceneChildren ?st')"
    unfolding ch r using lt setK by (auto simp: list_all_iff)
  have "refsCoverScene ?st'"
    unfolding refsCoverScene_def k1 k2 k3 using dist bound r by simp
  with k1 k2 k3 r show ?thesis by simp
qed

lemma loadEffect_runs:
  "stlFile sc = Some stl \<Longrightarrow> isInitialized sc \<Longrightarrow> sceneRef st \<noteq> None \<Longrightarrow>
   loadEffect parse throwsAt sc st = loadSTL parse throwsAt sc stl st"
  by (auto simp: loadEffect_def)

lemma load_success_trace:
  assumes "parse (arrayBuffer stl) = Some parsed" "sceneRef st \<noteq> None"
  shows "trace (loadSTL parse None sc stl st) =
     trace st @ clearEvents st @
     [SceneAdd (nextId st), SceneAdd (nextId st + 1), SceneAdd (nextId st + 2)] @ cameraEvents st \<and>
     cameraRef (loadSTL parse None sc stl st) = cameraRef st \<and>
     controlsRef (loadSTL parse None sc stl st) = controlsRef st"
proof -
  from assms(2) obtain s where s: "sceneRef st = Some s" by auto
  show ?thesis
    by (simp add: loadSTL_success_eq [of parse stl parsed st s sc, OF assms(1) s])
qed


text \<open>
  C3. From a state in which the scene holds no mesh, wireframe or normals object but
  those of the refs, two successful loads in succession leave exactly one mesh, one
  wireframe and one normals object in the scene: the three objects of the second load.
  The second load first removes the three objects of the first load from the scene and
  releases them, and only then adds its own.
\<close>

theorem two_loads_leave_one_set:
  assumes "refsCoverScene st" "sceneRef st \<noteq> None"
    and "isInitialized sc1" "stlFile sc1 = Some stl1" "parse (arrayBuffer stl1) = Some parsed1"
    and "isInitialized sc2" "stlFile sc2 = Some stl2" "parse (arrayBuffer stl2) = Some parsed2"
  shows "ofKind Mesh (loadEffect parse None sc2 (loadEffect parse None sc1 st)) = [nextId st + 3] \<and>
         ofKind LineSegments (loadEffect parse None sc2 (loadEffect parse None sc1 st)) =
           [nextId st + 4] \<and>
         ofKind VertexNormalsHelper (loadEffect parse None sc2 (loadEffect parse None sc1 st)) =
           [nextId st + 5] \<and>
         meshRef (loadEffect parse None sc2 (loadEffect parse None sc1 st)) = Some (nextId st + 3) \<and>
         wireframeRef (loadEffect parse None sc2 (loadEffect parse None sc1 st)) =
           Some (nextId st + 4) \<and>
         normalsHelperRef (loadEffect parse None sc2 (loadEffect parse None sc1 st)) =
           Some (nextId st + 5) \<and>
         trace (loadEffect parse None sc2 (loadEffect parse None sc1 st)) =
           trace (loadEffect parse None sc1 st) @
           [SceneRemove (nextId st), GeometryDispose (nextId st), MaterialDispose (nextId st),
            SceneRemove (nextId st + 1), GeometryDispose (nextId st + 1),
            MaterialDispose (nextId st + 1),
            SceneRemove (nextId st + 2), HelperDispose (nextId st + 2),
            SceneAdd (nextId st + 3), SceneAdd (nextId st + 4), SceneAdd (nextId st + 5)] @
           (if cameraRef st \<noteq> None \<and> controlsRef st \<noteq> None then [CameraReset, ControlsUpdate]
            else [])"
proof -
  define st1 where "st1 = loadSTL parse None sc1 stl1 st"
  define st2 where "st2 = loadSTL parse None sc2 stl2 st1"
  from assms(2) obtain s where s: "sceneRef st = Some s" by auto
  have l1: "loadEffect parse None sc1 st = st1"
    unfolding st1_def by (rule loadEffect_runs [OF assms(4,3,2)])
  note i1 = load_success_inv [of st parse stl1 parsed1 s sc1, OF assms(1,5) s, folded st1_def]
  from i1 obtain s1 where s1: "sceneRef st1 = Some s1" by auto
  have l2: "loadEffect parse None sc2 st1 = st2"
    unfolding st2_def by (rule loadEffect_runs [OF assms(7,6)]) (simp add: s1)
  have inv1: "refsCoverScene st1" using i1 by simp
  note i2 = load_success_inv [of st1 parse stl2 parsed2 s1 sc2, OF inv1 assms(8) s1, folded st2_def]
  have n1: "nextId st1 = nextId st + 3" using i1 by simp
  have t1: "cameraRef st1 = cameraRef st" "controlsRef st1 = controlsRef st"
    using load_success_trace [of parse stl1 parsed1 st sc1, OF assms(5,2)]
    by (simp_all add: st1_def)
  have ce: "clearEvents st1 =
      [SceneRemove (nextId st), GeometryDispose (nextId st), MaterialDispose (nextId st),
       SceneRemove (nextId st + 1), GeometryDispose (nextId st + 1), MaterialDispose (nextId st + 1),
       SceneRemove (nextId st + 2), HelperDispose (nextId st + 2)]"
    using i1 by (simp add: clearEvents_def)
  have t2: "trace st2 = trace st1 @ clearEvents st1 @
      [SceneAdd (nextId st1), SceneAdd (nextId st1 + 1), SceneAdd (nextId st1 + 2)] @
      cameraEvents st1"
    using load_success_trace [of parse stl2 parsed2 st1 sc2, OF assms(8)] s1
    by (simp add: st2_def)
  have cam: "cameraEvents st1 =
      (if cameraRef st \<noteq> None \<and> controlsRef st \<noteq> None then [CameraReset, ControlsUpdate] else [])"
    by (simp add: cameraEvents_def t1)
  have k: "ofKind Mesh st2 = [nextId st + 3]" "ofKind LineSegments st2 = [nextId st + 4]"
      "ofKind VertexNormalsHelper st2 = [nextId st + 5]"
      "meshRef st2 = Some (nextId st + 3)" "wireframeRef st2 = Some (nextId st + 4)"
      "normalsHelperRef st2 = Some (nextId st + 5)"
    using i2 by (simp_all add: n1)
  have t: "trace st2 = trace st1 @
      [SceneRemove (nextId st), GeometryDispose (nextId st), MaterialDispose (nextId st),
       SceneRemove (nextId st + 1), GeometryDispose (nextId st + 1), MaterialDispose (nextId st + 1),
       SceneRemove (nextId st + 2), HelperDispose (nextId st + 2),
       SceneAdd (nextId st + 3), SceneAdd (nextId st + 4), SceneAdd (nextId st + 5)] @
      (if cameraRef st \<noteq> None \<and> controlsRef st \<noteq> None then [CameraReset, ControlsUpdate] else [])"
    unfolding t2 ce cam n1 by simp
  show ?thesis
    unfolding l1 l2 using k t by simp
qed

theorem two_loads_leave_one_set_witness:
  "refsCoverScene ready \<and> sceneRef ready \<noteq> None \<and>
   isInitialized loading \<and> stlFile loading = Some triangleFile \<and>
   isInitialized spinning \<and> stlFile spinning = Some triangleFile \<and>
   sampleParse (arrayBuffer triangleFile) = Some [(0, 0, 0), (10, 0, 0), (0, 5, 0)] \<and>
   ofKind Mesh (loadEffect sampleParse None spinning (loadEffect sampleParse None loading ready)) =
     [11] \<and>
   ofKind LineSegments
     (loadEffect sampleParse None spinning (loadEffect sampleParse None loading ready)) = [12] \<and>
   ofKind VertexNormalsHelper
     (loadEffect sampleParse None spinning (loadEffect sampleParse None loading ready)) = [13]"
proof -
  have h1: "refsCoverScene ready" by code_simp
  have h2: "sceneRef ready \<noteq> None" by code_simp
  have h3: "isInitialized loading" by code_simp
  have h4: "stlFile loading = Some triangleFile" by code_simp
  have h5: "sampleParse (arrayBuffer triangleFile) = Some [(0, 0, 0), (10, 0, 0), (0, 5, 0)]"
    by code_simp
  have h6: "isInitialized spinning" by code_simp
  have h7: "stlFile spinning = Some triangleFile" by code_simp
  have n: "nextId ready = 8" by code_simp
  note c = two_loads_leave_one_set [of ready loading triangleFile sampleParse _ spinning triangleFile,
      OF h1 h2 h3 h4 h5 h6 h7 h5]
  from c n have
    "ofKind Mesh (loadEffect sampleParse None spinning (loadEffect sampleParse None loading ready)) =
       [11]"
    "ofKind LineSegments
       (loadEffect sampleParse None spinning (loadEffect sampleParse None loading ready)) = [12]"
    "ofKind VertexNormalsHelper
       (loadEffect sampleParse None spinning (loadEffect sampleParse None loading ready)) = [13]"
    by simp_all
  with h1 h2 h3 h4 h5 h6 h7 show ?thesis by simp
qed

















section \<open>The invariants are kept by every operation\<close>

lemma refsCoverScene_trace: "refsCoverScene (st\<lparr> trace := t \<rparr>) = refsCoverScene st"
  by (simp add: refsCoverScene_def sceneChildren_def ofKind_def)

lemma refsCoverScene_clearPrevious:
  assumes "refsCoverScene st"
  shows "refsCoverScene (clearPrevious st) \<and> ofKind Mesh (clearPrevious st) = [] \<and>
         ofKind LineSegments (clearPrevious st) = [] \<and>
         ofKind VertexNormalsHelper (clearPrevious st) = []"
proof -
  let ?C = "sceneChildren st"
  have c: "sceneChildren (clearPrevious st) = cleared st ?C"
    by (cases "sceneRef st") (simp_all add: clearPrevious_eq sceneChildren_def cleared_def rm_def
        split: option.splits)
  have o: "objects (clearPrevious st) = objects st" "nextId (clearPrevious st) = nextId st"
      "meshRef (clearPrevious st) = meshRef st" "wireframeRef (clearPrevious st) = wireframeRef st"
      "normalsHelperRef (clearPrevious st) = normalsHelperRef st"
    by (simp_all add: clearPrevious_eq)
  have d: "distinct ?C" and lt: "\<forall>i\<in>set ?C. i < nextId st"
    and km: "\<forall>i\<in>set ?C. kind (objects st i) = Mesh \<longrightarrow> meshRef st = Some i"
    and kw: "\<forall>i\<in>set ?C. kind (objects st i) = LineSegments \<longrightarrow> wireframeRef st = Some i"
    and kn: "\<forall>i\<in>set ?C. kind (objects st i) = VertexNormalsHelper \<longrightarrow>
               normalsHelperRef st = Some i"
    using assms by (auto simp: refsCoverScene_def ofKind_def list_all_iff)
  note setK = set_cleared [OF d, of st]
  have k: "ofKind Mesh (clearPrevious st) = []" "ofKind LineSegments (clearPrevious st) = []"
      "ofKind VertexNormalsHelper (clearPrevious st) = []"
    unfolding ofKind_def c o using km kw kn setK by (auto simp: filter_empty_conv)
  have "refsCoverScene (clearPrevious st)"
    unfolding refsCoverScene_def k c o using distinct_cleared [OF d] lt setK
    by (auto simp: list_all_iff)
  with k show ?thesis by simp
qed

lemma ofKind_added:
  assumes "sceneChildren st' = sceneChildren st @ [nextId st]"
    and "objects st' = (objects st)(nextId st := ob)"
    and "list_all (\<lambda>i. i < nextId st) (sceneChildren st)"
  shows "ofKind k st' = ofKind k st @ (if kind ob = k then [nextId st] else [])"
proof -
  have "filter (\<lambda>i. kind (((objects st)(nextId st := ob)) i) = k) (sceneChildren st) =
        filter (\<lambda>i. kind (objects st i) = k) (sceneChildren st)"
    using assms(3) by (intro filter_cong) (auto simp: list_all_iff)
  then show ?thesis
    by (simp add: ofKind_def assms(1,2))
qed

lemma refsCoverScene_createMesh:
  assumes "refsCoverScene st" "ofKind Mesh st = []" "sceneRef st \<noteq> None"
  shows "refsCoverScene (createMesh sc g st) \<and>
         ofKind LineSegments (createMesh sc g st) = ofKind LineSegments st \<and>
         ofKind VertexNormalsHelper (createMesh sc g st) = ofKind VertexNormalsHelper st \<and>
         sceneRef (createMesh sc g st) \<noteq> None"
proof -
  let ?st' = "createMesh sc g st"
  have c: "sceneChildren ?st' = sceneChildren st @ [nextId st]"
    using assms(3) by (auto simp: createMesh_eq sceneChildren_def)
  have o: "objects ?st' = (objects st)(nextId st := meshObject sc g)"
    by (simp add: createMesh_eq)
  have b: "list_all (\<lambda>i. i < nextId st) (sceneChildren st)" and d: "distinct (sceneChildren st)"
    using assms(1) by (simp_all add: refsCoverScene_def)
  note k = ofKind_added [OF c o b]
  have r: "meshRef ?st' = Some (nextId st)" "wireframeRef ?st' = wireframeRef st"
      "normalsHelperRef ?st' = normalsHelperRef st" "nextId ?st' = nextId st + 1"
      "sceneRef ?st' \<noteq> None"
    using assms(3) by (auto simp: createMesh_eq)
  have "refsCoverScene ?st'"
    unfolding refsCoverScene_def k c r using assms(1,2) b d
    by (auto simp: refsCoverScene_def meshObject_def list_all_iff)
  then show ?thesis
    using r by (simp add: k meshObject_def)
qed

lemma refsCoverScene_createWireframe:
  assumes "refsCoverScene st" "ofKind LineSegments st = []" "sceneRef st \<noteq> None"
  shows "refsCoverScene (createWireframe sc g st) \<and>
         ofKind VertexNormalsHelper (createWireframe sc g st) = ofKind VertexNormalsHelper st \<and>
         sceneRef (createWireframe sc g st) \<noteq> None"
proof -
  let ?st' = "createWireframe sc g st"
  have c: "sceneChildren ?st' = sceneChildren st @ [nextId st]"
    using assms(3) by (auto simp: createWireframe_eq sceneChildren_def)
  have o: "objects ?st' = (objects st)(nextId st := wireframeObject sc g)"
    by (simp add: createWireframe_eq)
  have b: "list_all (\<lambda>i. i < nextId st) (sceneChildren st)" and d: "distinct (sceneChildren st)"
    using assms(1) by (simp_all add: refsCoverScene_def)
  note k = ofKind_added [OF c o b]
  have r: "meshRef ?st' = meshRef st" "wireframeRef ?st' = Some (nextId st)"
      "normalsHelperRef ?st' = normalsHelperRef st" "nextId ?st' = nextId st + 1"
      "sceneRef ?st' \<noteq> None"
    using assms(3) by (auto simp: createWireframe_eq)
  have "refsCoverScene ?st'"
    unfolding refsCoverScene_def k c r using assms(1,2) b d
    by (auto simp: refsCoverScene_def wireframeObject_def list_all_iff)
  then show ?thesis
    using r by (simp add: k wireframeObject_def)
qed

lemma refsCoverScene_createNormalsHelper:
  assumes "refsCoverScene st" "ofKind VertexNormalsHelper st = []" "sceneRef st \<noteq> None"
  shows "refsCoverScene (createNormalsHelper sc g st)"
proof -
  let ?st' = "createNormalsHelper sc g st"
  have c: "sceneChildren ?st' = sceneChildren st @ [nextId st]"
    using assms(3) by (auto simp: createNormalsHelper_eq sceneChildren_def)
  have o: "objects ?st' = (objects st)(nextId st := normalsObject sc g)"
    by (simp add: createNormalsHelper_eq)
  have b: "list_all (\<lambda>i. i < nextId st) (sceneChildren st)" and d: "distinct (sceneChildren st)"
    using assms(1) by (simp_all add: refsCoverScene_def)
  note k = ofKind_added [OF c o b]
  have r: "meshRef ?st' = meshRef st" "wireframeRef ?st' = wireframeRef st"
      "normalsHelperRef ?st' = Some (nextId st)" "nextId ?st' = nextId st + 1"
    by (simp_all add: createNormalsHelper_eq)
  show "refsCoverScene ?st'"
    unfolding refsCoverScene_def k c r using assms(1,2) b d
    by (auto simp: refsCoverScene_def normalsObject_def list_all_iff)
qed

text \<open>A load keeps the invariant, whether it succeeds or fails, and wherever it fails.\<close>

lemma refsCoverScene_loadEffect:
  assumes "refsCoverScene st"
  shows "refsCoverScene (loadEffect parse throwsAt sc st)"
proof (cases "stlFile sc")
  case None
  then show ?thesis using assms by (simp add: loadEffect_def)
next
  case (Some stl)
  show ?thesis
  proof (cases "sceneRef st = None \<or> \<not> isInitialized sc")
    case True
    then show ?thesis using assms by (auto simp: loadEffect_def Some)
  next
    case False
    then have sr: "sceneRef st \<noteq> None" by simp
    have l: "loadEffect parse throwsAt sc st = loadSTL parse throwsAt sc stl st"
      using False by (auto simp: loadEffect_def Some)
    show ?thesis
    proof (cases "parse (arrayBuffer stl)")
      case None
      then show ?thesis
        using assms by (simp add: l loadSTL_def catchError_def emit_def refsCoverScene_trace)
    next
      case (Some parsed)
      define g where "g = normalizeGeometry parsed"
      define st1 where "st1 = clearPrevious st"
      define st2 where "st2 = createMesh sc g st1"
      define st3 where "st3 = createWireframe sc g st2"
      define st4 where "st4 = createNormalsHelper sc g st3"
      have s1: "sceneRef st1 \<noteq> None"
        using sr by (auto simp: st1_def clearPrevious_eq)
      note a = refsCoverScene_clearPrevious [OF assms, folded st1_def]
      have i1: "refsCoverScene st1" and m1: "ofKind Mesh st1 = []"
        and w1: "ofKind LineSegments st1 = []" and n1: "ofKind VertexNormalsHelper st1 = []"
        using a by simp_all
      note b = refsCoverScene_createMesh [OF i1 m1 s1, of sc g, folded st2_def]
      have i2: "refsCoverScene st2" and w2: "ofKind LineSegments st2 = []"
        and n2: "ofKind VertexNormalsHelper st2 = []" and s2: "sceneRef st2 \<noteq> None"
        using b w1 n1 by simp_all
      note c = refsCoverScene_createWireframe [OF i2 w2 s2, of sc g, folded st3_def]
      have i3: "refsCoverScene st3" and n3: "ofKind VertexNormalsHelper st3 = []"
        and s3: "sceneRef st3 \<noteq> None"
        using c n2 by simp_all
      have i4: "refsCoverScene st4"
        unfolding st4_def by (rule refsCoverScene_createNormalsHelper [OF i3 n3 s3])
      have t: "\<And>x. refsCoverScene x \<Longrightarrow> refsCoverScene (catchError x)"
        "\<And>x. refsCoverScene x \<Longrightarrow> refsCoverScene (resetCamera x)"
        by (simp_all add: catchError_def emit_def resetCamera_eq refsCoverScene_trace)
      have "loadSTL parse throwsAt sc stl st =
          (if throwsAt = Some CreateMesh then catchError st1
           else if throwsAt = Some CreateWireframe then catchError st2
           else if throwsAt = Some CreateNormalsHelper then catchError st3
           else if throwsAt = Some ResetCamera then catchError st4
           else resetCamera st4)"
        by (simp add: loadSTL_def Some Let_def st4_def st3_def st2_def st1_def g_def)
      then show ?thesis
        unfolding l using i1 i2 i3 i4 t by simp
    qed
  qed
qed

lemma refsCoverScene_applyEffect:
  "refsCoverScene st \<Longrightarrow> refsCoverScene (applyEffect sc st)"
proof -
  assume a: "refsCoverScene st"
  have k: "\<And>i. kind (objects (applyEffect sc st) i) = kind (objects st i)"
    by (cases "sceneRef st") (simp_all add: applyEffect_eq applied_apply kind_objApplied)
  have r: "meshRef (applyEffect sc st) = meshRef st"
      "wireframeRef (applyEffect sc st) = wireframeRef st"
      "normalsHelperRef (applyEffect sc st) = normalsHelperRef st"
    by (cases "sceneRef st"; simp add: applyEffect_eq)+
  have c: "sceneChildren (applyEffect sc st) = sceneChildren st"
      "nextId (applyEffect sc st) = nextId st"
    using applyEffect_frame [of sc st] by simp_all
  show ?thesis
    using a unfolding refsCoverScene_def ofKind_def k r c .
qed

lemma refsCoverScene_animationFrame:
  "singleLoop st \<Longrightarrow> refsCoverScene st \<Longrightarrow> refsCoverScene (animationFrame st)"
proof (cases "pendingFrames st")
  case Nil
  assume "refsCoverScene st"
  then show ?thesis by (simp add: animationFrame_idle [OF Nil])
next
  case (Cons p ps)
  assume "singleLoop st" and r: "refsCoverScene st"
  with Cons have ps: "ps = []" by (simp add: singleLoop_def)
  have e: "animationFrame st = animate (snd p) (st\<lparr> pendingFrames := [] \<rparr>)"
    by (simp add: animationFrame_def Cons ps)
  have "refsCoverScene (st\<lparr> pendingFrames := [] \<rparr>)"
    using r by (simp add: refsCoverScene_def sceneChildren_def ofKind_def)
  then show ?thesis
    by (simp add: e refsCoverScene_animate)
qed

lemma singleLoop_applyEffect: "singleLoop st \<Longrightarrow> singleLoop (applyEffect sc st)"
  using applyEffect_frame [of sc st] by (simp add: singleLoop_def)

lemma singleLoop_cleanup: "singleLoop st \<Longrightarrow> singleLoop (cleanup st)"
  using singleLoop_filter [of st] by (simp add: singleLoop_def cleanup_eq)


lemma loop_untouched_by_steps:
  "pendingFrames (catchError st) = pendingFrames st \<and>
   animationFrameRef (catchError st) = animationFrameRef st"
  "pendingFrames (clearPrevious st) = pendingFrames st \<and>
   animationFrameRef (clearPrevious st) = animationFrameRef st"
  "pendingFrames (createMesh sc g st) = pendingFrames st \<and>
   animationFrameRef (createMesh sc g st) = animationFrameRef st"
  "pendingFrames (createWireframe sc g st) = pendingFrames st \<and>
   animationFrameRef (createWireframe sc g st) = animationFrameRef st"
  "pendingFrames (createNormalsHelper sc g st) = pendingFrames st \<and>
   animationFrameRef (createNormalsHelper sc g st) = animationFrameRef st"
  "pendingFrames (resetCamera st) = pendingFrames st \<and>
   animationFrameRef (resetCamera st) = animationFrameRef st"
  by (simp_all add: catchError_def emit_def clearPrevious_eq createMesh_eq createWireframe_eq
      createNormalsHelper_eq resetCamera_eq)

lemma singleLoop_loadEffect: "singleLoop st \<Longrightarrow> singleLoop (loadEffect parse throwsAt sc st)"
proof -
  assume a: "singleLoop st"
  have "pendingFrames (loadEffect parse throwsAt sc st) = pendingFrames st \<and>
        animationFrameRef (loadEffect parse throwsAt sc st) = animationFrameRef st"
    by (simp add: loadEffect_def loadSTL_def Let_def loop_untouched_by_steps
        split: option.splits)
  with a show ?thesis by (simp add: singleLoop_def)
qed

end
